theory Spec2Isabelle
  imports Complex_Main "HOL-Library.Word"
begin

section \<open>Python and numpy values\<close>

text \<open>
  The image batches of \<^verbatim>\<open>dataset/batch_image.py\<close> are Python objects holding numpy arrays.
  An exception is a value of the type \<open>error\<close>; a function that can raise returns
  \<open>error + 'a\<close> (\<open>Inl\<close> the exception), and a method that also changes the batch returns an
  \<open>outcome\<close>, which keeps the state of the batch at the moment of the \<^verbatim>\<open>raise\<close>.
  A source name that starts with an underscore is written with the prefix \<open>priv_\<close>.
\<close>

subsection \<open>Exceptions\<close>

datatype error =
    ValueError string
  | TypeError
  | IndexError
  | KeyError
  | AttributeError
  | UnboundLocalError
  | RuntimeError string

fun is_prefix :: "string \<Rightarrow> string \<Rightarrow> bool" where
  "is_prefix [] s = True"
| "is_prefix (c # cs) [] = False"
| "is_prefix (c # cs) (d # ds) = (c = d \<and> is_prefix cs ds)"

text \<open>Python's \<^verbatim>\<open>sub in s\<close> on strings.\<close>

fun str_contains :: "string \<Rightarrow> string \<Rightarrow> bool" where
  "str_contains sub [] = (sub = [])"
| "str_contains sub (c # cs) = (is_prefix sub (c # cs) \<or> str_contains sub cs)"

subsection \<open>numpy arrays\<close>

text \<open>
  An \<^verbatim>\<open>ndarray\<close> is its shape and its elements in row-major (C) order. \<open>ndindex\<close> lists
  the indices of a shape in that order, \<open>ravel_index\<close> is the offset of an index,
  \<open>item\<close> reads one element (only ever used at an index within the shape) and \<open>tabulate\<close>
  builds the array of a shape from its elements.
\<close>

datatype 'a ndarray = NDArray (shape: "nat list") (data: "'a list")

definition well_formed :: "'a ndarray \<Rightarrow> bool" where
  "well_formed a \<longleftrightarrow> length (data a) = prod_list (shape a)"

fun ndindex :: "nat list \<Rightarrow> nat list list" where
  "ndindex [] = [[]]"
| "ndindex (n # s) = concat (map (\<lambda>i. map ((#) i) (ndindex s)) [0..<n])"

fun ravel_index :: "nat list \<Rightarrow> nat list \<Rightarrow> nat" where
  "ravel_index (n # s) (i # idx) = i * prod_list s + ravel_index s idx"
| "ravel_index s idx = 0"

definition in_bounds :: "nat list \<Rightarrow> nat list \<Rightarrow> bool" where
  "in_bounds idx s \<longleftrightarrow> list_all2 (<) idx s"

definition item :: "'a ndarray \<Rightarrow> nat list \<Rightarrow> 'a" where
  "item a idx = data a ! ravel_index (shape a) idx"

definition tabulate :: "nat list \<Rightarrow> (nat list \<Rightarrow> 'a) \<Rightarrow> 'a ndarray" where
  "tabulate s f = NDArray s (map f (ndindex s))"

text \<open>\<^verbatim>\<open>np.zeros(shape, dtype)\<close>: a negative dimension raises \<^verbatim>\<open>ValueError\<close>.\<close>

definition np_zeros :: "int list \<Rightarrow> error + ('a::zero) ndarray" where
  "np_zeros s =
     (if list_ex (\<lambda>d. d < 0) s then Inl (ValueError ''negative dimensions are not allowed'')
      else Inr (NDArray (map nat s) (replicate (prod_list (map nat s)) 0)))"

text \<open>
  \<^verbatim>\<open>np.stack(arrays)\<close> along a new first axis. numpy raises
  \<^verbatim>\<open>ValueError('need at least one array to stack')\<close> for an empty list and
  \<^verbatim>\<open>ValueError('all input arrays must have the same shape')\<close> when the shapes differ.
\<close>

definition np_stack :: "'a ndarray list \<Rightarrow> error + 'a ndarray" where
  "np_stack arrays =
     (case arrays of
        [] \<Rightarrow> Inl (ValueError ''need at least one array to stack'')
      | a # as \<Rightarrow>
          if list_all (\<lambda>b. shape b = shape a) as
          then Inr (NDArray (length arrays # shape a) (concat (map data arrays)))
          else Inl (ValueError ''all input arrays must have the same shape''))"

text \<open>
  \<^verbatim>\<open>slice(start, stop).indices(n)\<close> with step 1: a negative bound counts from the end,
  both bounds are clipped to \<open>0..n\<close>, and a stop before the start selects nothing.
\<close>

definition clip_bound :: "nat \<Rightarrow> int \<Rightarrow> nat" where
  "clip_bound n b = (if b < 0 then nat (max (b + int n) 0) else min (nat b) n)"

definition slice_indices :: "nat \<Rightarrow> int \<Rightarrow> int \<Rightarrow> nat \<times> nat" where
  "slice_indices n start stop =
     (let lo = clip_bound n start; hi = clip_bound n stop in (lo, max lo hi))"

text \<open>
  \<^verbatim>\<open>a[r0:r1, c0:c1]\<close>: basic slicing of the first two axes. An array of fewer than two
  axes raises \<^verbatim>\<open>IndexError\<close> (too many indices).
\<close>

definition getitem_slices :: "'a ndarray \<Rightarrow> int \<times> int \<Rightarrow> int \<times> int \<Rightarrow> error + 'a ndarray" where
  "getitem_slices a rows cols =
     (case shape a of
        h # w # rest \<Rightarrow>
          (let (r0, r1) = slice_indices h (fst rows) (snd rows);
               (c0, c1) = slice_indices w (fst cols) (snd cols)
           in Inr (tabulate ((r1 - r0) # (c1 - c0) # rest)
                     (\<lambda>idx. item a ((r0 + idx ! 0) # (c0 + idx ! 1) # drop 2 idx))))
      | _ \<Rightarrow> Inl IndexError)"

text \<open>\<^verbatim>\<open>a[i]\<close> for a position \<open>i\<close>: the sub-array at \<open>i\<close> along the first axis.\<close>

definition getitem :: "'a ndarray \<Rightarrow> nat \<Rightarrow> error + 'a ndarray" where
  "getitem a i =
     (case shape a of
        [] \<Rightarrow> Inl IndexError
      | n # s \<Rightarrow> if i < n then Inr (tabulate s (\<lambda>idx. item a (i # idx))) else Inl IndexError)"

text \<open>
  \<^verbatim>\<open>np.array([x.shape for x in all_res]).min(axis=0)\<close>: the elementwise minimum of the
  shapes. Shapes of different lengths do not form a rectangular array
  (\<^verbatim>\<open>ValueError\<close>: inhomogeneous shape), and an empty table has no minimum.
\<close>

definition min_shape :: "nat list list \<Rightarrow> error + nat list" where
  "min_shape shapes =
     (case shapes of
        [] \<Rightarrow> Inl (ValueError ''zero-size array to reduction operation minimum which has no identity'')
      | s # ss \<Rightarrow>
          if list_all (\<lambda>t. length t = length s) ss
          then Inr (foldl (\<lambda>m t. map2 min m t) s ss)
          else Inl (ValueError ''setting an array element with a sequence. The requested array has an inhomogeneous shape''))"

section \<open>The batch\<close>

text \<open>
  Modelled from the spec: the class \<^verbatim>\<open>Batch\<close> (\<^verbatim>\<open>dataset/batch.py\<close>) is not among the
  sources. A batch has an index, an ordered sequence of unique record identifiers, and
  array-backed components, where position \<open>i\<close> of a component belongs to the \<open>i\<close>-th
  identifier. What the batch printed is kept in \<open>console\<close>. A per-record task hands
  back an array or the exception it raised; the traceback of a captured exception is
  represented by the record whose task raised it.
\<close>

datatype traceback = RaisedIn int

datatype 'a result = Failed (exc: error) (trace: traceback) | Done "'a ndarray"

datatype printed = PrintErrors "(error \<times> traceback) list option" | PrintTb traceback

record 'a batch =
  indices :: "int list"
  comps :: "string \<rightharpoonup> 'a ndarray"
  console :: "printed list"

datatype 'a returned = ReturnsNone | ReturnsSelf | ReturnsArray "'a ndarray"

datatype 'a outcome = Returns "'a returned" "'a batch" | Raises error "'a batch"

text \<open>Modelled from the spec: \<^verbatim>\<open>setattr(self, component, value)\<close> rebinds the component.\<close>

definition setattr :: "'a batch \<Rightarrow> string \<Rightarrow> 'a ndarray \<Rightarrow> 'a batch" where
  "setattr self component v = self\<lparr>comps := (comps self)(component \<mapsto> v)\<rparr>"

text \<open>
  Modelled from the spec: \<^verbatim>\<open>Batch.get(ix, component)\<close> resolves the identifier to its
  position in the index (\<^verbatim>\<open>KeyError\<close> when absent) and reads the component there.
\<close>

fun get_pos :: "int list \<Rightarrow> int \<Rightarrow> nat option" where
  "get_pos [] ix = None"
| "get_pos (j # js) ix = (if j = ix then Some 0 else map_option Suc (get_pos js ix))"

definition get :: "'a batch \<Rightarrow> int \<Rightarrow> string \<Rightarrow> error + 'a ndarray" where
  "get self ix component =
     (case comps self component of
        None \<Rightarrow> Inl AttributeError
      | Some a \<Rightarrow>
          (case get_pos (indices self) ix of
             None \<Rightarrow> Inl KeyError
           | Some pos \<Rightarrow> getitem a pos))"

text \<open>
  Modelled from the spec: \<^verbatim>\<open>any_action_failed\<close> (\<^verbatim>\<open>dataset/decorators.py\<close>) and
  \<^verbatim>\<open>Batch.get_errors\<close> are not among the sources. A per-record task hands back its
  value or the exception it raised; \<^verbatim>\<open>get_errors\<close> lists the exceptions in record order
  (\<^verbatim>\<open>None\<close> when there is none).
\<close>

fun is_failed :: "'a result \<Rightarrow> bool" where
  "is_failed (Failed e t) = True"
| "is_failed (Done a) = False"

definition any_action_failed :: "'a result list \<Rightarrow> bool" where
  "any_action_failed all_res = list_ex is_failed all_res"

fun errors_of :: "'a result list \<Rightarrow> (error \<times> traceback) list" where
  "errors_of [] = []"
| "errors_of (Failed e t # rs) = (e, t) # errors_of rs"
| "errors_of (Done a # rs) = errors_of rs"

definition get_errors :: "'a batch \<Rightarrow> 'a result list \<Rightarrow> (error \<times> traceback) list option" where
  "get_errors self all_res =
     (let all_errors = errors_of all_res in if all_errors = [] then None else Some all_errors)"

fun arrays_of :: "'a result list \<Rightarrow> 'a ndarray list" where
  "arrays_of [] = []"
| "arrays_of (Failed e t # rs) = arrays_of rs"
| "arrays_of (Done a # rs) = a # arrays_of rs"

section \<open>\<^verbatim>\<open>ImagesBatch\<close>: assembling the results of a parallel action\<close>

text \<open>
  \<^verbatim>\<open>ImagesBatch.assemble_component\<close> (lines 303-313). The handler is entered for a
  \<^verbatim>\<open>ValueError\<close> only; when the message is another one, \<^verbatim>\<open>new_images\<close> was never
  assigned and the \<^verbatim>\<open>setattr\<close> line raises \<^verbatim>\<open>UnboundLocalError\<close>. Inside the handler,
  \<^verbatim>\<open>min_shape[0]\<close> and \<^verbatim>\<open>min_shape[1]\<close> raise \<^verbatim>\<open>IndexError\<close> for shapes of fewer than two
  axes, and every exception of the handler itself propagates.
\<close>

fun crop_all :: "'a ndarray list \<Rightarrow> int \<Rightarrow> int \<Rightarrow> error + 'a ndarray list" where
  "crop_all [] m0 m1 = Inr []"
| "crop_all (arr # arrs) m0 m1 =
     (case getitem_slices arr (0, m0) (0, m1) of
        Inl e \<Rightarrow> Inl e
      | Inr c \<Rightarrow> (case crop_all arrs m0 m1 of Inl e \<Rightarrow> Inl e | Inr cs \<Rightarrow> Inr (c # cs)))"

definition assemble_component :: "'a batch \<Rightarrow> 'a ndarray list \<Rightarrow> string \<Rightarrow> 'a outcome" where
  "assemble_component self all_res components =
     (case np_stack all_res of
        Inr new_images \<Rightarrow> Returns ReturnsNone (setattr self components new_images)
      | Inl (ValueError message) \<Rightarrow>
          if str_contains ''must have the same shape'' message
          then (case min_shape (map shape all_res) of
                  Inl e \<Rightarrow> Raises e self
                | Inr ms \<Rightarrow>
                    if length ms < 2 then Raises IndexError self
                    else (case crop_all all_res (int (ms ! 0)) (int (ms ! 1)) of
                            Inl e \<Rightarrow> Raises e self
                          | Inr cropped \<Rightarrow>
                              (case np_stack cropped of
                                 Inl e \<Rightarrow> Raises e self
                               | Inr new_images \<Rightarrow>
                                   Returns ReturnsNone (setattr self components new_images))))
          else Raises UnboundLocalError self
      | Inl e \<Rightarrow> Raises e self)"

text \<open>
  \<^verbatim>\<open>zip(*all_res)\<close> on a list of arrays: iterating an array yields its sub-arrays along
  the first axis (a 0-d array cannot be iterated: \<^verbatim>\<open>TypeError\<close>), and \<^verbatim>\<open>zip\<close> stops
  with the shortest of them.
\<close>

definition and_then :: "error + 'a \<Rightarrow> ('a \<Rightarrow> error + 'b) \<Rightarrow> error + 'b" where
  "and_then r f = (case r of Inl e \<Rightarrow> Inl e | Inr v \<Rightarrow> f v)"

definition iterate :: "'a ndarray \<Rightarrow> error + 'a ndarray list" where
  "iterate a =
     (case shape a of
        [] \<Rightarrow> Inl TypeError
      | n # s \<Rightarrow> Inr (map (\<lambda>i. tabulate s (\<lambda>idx. item a (i # idx))) [0..<n]))"

fun iterate_all :: "'a ndarray list \<Rightarrow> error + 'a ndarray list list" where
  "iterate_all [] = Inr []"
| "iterate_all (a # as) =
     and_then (iterate a) (\<lambda>r. and_then (iterate_all as) (\<lambda>rs. Inr (r # rs)))"

definition zip_star :: "'x list list \<Rightarrow> 'x list list" where
  "zip_star ls =
     (if ls = [] then [] else map (\<lambda>i. map (\<lambda>l. l ! i) ls) [0..<min_list (map length ls)])"

text \<open>
  \<^verbatim>\<open>ImagesBatch.assemble\<close> (lines 315-332). The only keyword argument it reads is
  \<^verbatim>\<open>components\<close>: a name, or a list or tuple of names. The loop over the components stops
  at the first exception, with the components assembled so far installed.
\<close>

datatype components_arg = Name string | Names "string list"

fun assemble_loop :: "'a batch \<Rightarrow> (string \<times> 'a ndarray list) list \<Rightarrow> 'a outcome" where
  "assemble_loop self [] = Returns ReturnsSelf self"
| "assemble_loop self ((component, res) # rest) =
     (case assemble_component self res component of
        Raises e self' \<Rightarrow> Raises e self'
      | Returns r self' \<Rightarrow> assemble_loop self' rest)"

definition py_print :: "printed \<Rightarrow> 'a batch \<Rightarrow> 'a batch" where
  "py_print p self = self\<lparr>console := console self @ [p]\<rparr>"

definition assemble :: "'a batch \<Rightarrow> 'a result list \<Rightarrow> components_arg option \<Rightarrow> 'a outcome" where
  "assemble self all_res kwargs =
     (if any_action_failed all_res then
        (let all_errors = get_errors self all_res;
             self1 = py_print (PrintErrors all_errors) self
         in case all_errors of
              None \<Rightarrow> Raises TypeError self1
            | Some [] \<Rightarrow> Raises IndexError self1
            | Some (first # others) \<Rightarrow>
                Raises (RuntimeError ''Could not assemble the batch'')
                  (py_print (PrintTb (snd first)) self1))
      else
        (case (case kwargs of None \<Rightarrow> Name ''images'' | Some c \<Rightarrow> c) of
           Names components \<Rightarrow>
             (case iterate_all (arrays_of all_res) of
                Inl e \<Rightarrow> Raises e self
              | Inr rows \<Rightarrow> assemble_loop self (zip components (zip_star rows)))
         | Name component \<Rightarrow> assemble_loop self [(component, arrays_of all_res)]))"

text \<open>
  Modelled from the spec: the decorator \<^verbatim>\<open>inbatch_parallel(init='indices', post='assemble')\<close>
  (\<^verbatim>\<open>dataset/decorators.py\<close>) is not among the sources. It runs the method once per record
  identifier of the batch, collects each value or the exception that task raised, in record
  order, and calls \<^verbatim>\<open>assemble(all_res, *args, **kwargs)\<close> with the arguments of the call. The
  per-record methods below read the batch and do not change it. \<^verbatim>\<open>action\<close> hands the
  result of the method back as it is.
\<close>

definition run_task :: "(int \<Rightarrow> error + 'a ndarray) \<Rightarrow> int \<Rightarrow> 'a result" where
  "run_task task ix = (case task ix of Inl e \<Rightarrow> Failed e (RaisedIn ix) | Inr a \<Rightarrow> Done a)"

definition inbatch_parallel ::
  "('a batch \<Rightarrow> int \<Rightarrow> error + 'a ndarray) \<Rightarrow> 'a batch \<Rightarrow> components_arg option \<Rightarrow> 'a outcome" where
  "inbatch_parallel method self kwargs = assemble self (map (run_task (method self)) (indices self)) kwargs"

section \<open>Cropping\<close>

text \<open>
  The arguments \<^verbatim>\<open>origin\<close> and \<^verbatim>\<open>shape\<close> of \<^verbatim>\<open>crop\<close> are Python objects: \<^verbatim>\<open>None\<close>, a
  string, or one of \<^verbatim>\<open>LIST_LIKE_OBJECTS\<close> (tuple, list, 1-d \<^verbatim>\<open>np.ndarray\<close>) of integers.
  \<^verbatim>\<open>+\<close> concatenates two tuples or two lists and adds elementwise as soon as one side is
  an array; \<^verbatim>\<open>>\<close> compares two tuples lexicographically and elementwise when one side is
  an array; a tuple and a list can be neither added nor compared, and a tuple cannot be
  subtracted from a tuple (\<^verbatim>\<open>TypeError\<close>).

  numpy is modelled as its current releases behave. Since numpy 1.25 \<^verbatim>\<open>==\<close> between an array
  and a string is elementwise and gives an array of \<^verbatim>\<open>False\<close> entries; \<^verbatim>\<open>if\<close> and \<^verbatim>\<open>in\<close> take the
  truth value of that array, which is \<^verbatim>\<open>False\<close> for an array of one entry and a \<^verbatim>\<open>ValueError\<close>
  for every other array (for the empty array since numpy 2.2). Older releases returned the
  scalar \<^verbatim>\<open>False\<close> with a warning.
\<close>

datatype pyobj = PyNone | PyStr string | PyTuple "int list" | PyList "int list" | PyArray "int list"

fun is_list_like :: "pyobj \<Rightarrow> bool" where
  "is_list_like (PyTuple xs) = True"
| "is_list_like (PyList xs) = True"
| "is_list_like (PyArray xs) = True"
| "is_list_like other = False"

fun elements :: "pyobj \<Rightarrow> int list" where
  "elements (PyTuple xs) = xs"
| "elements (PyList xs) = xs"
| "elements (PyArray xs) = xs"
| "elements other = []"

definition broadcast :: "(int \<Rightarrow> int \<Rightarrow> 'b) \<Rightarrow> int list \<Rightarrow> int list \<Rightarrow> error + 'b list" where
  "broadcast f xs ys =
     (if length xs = length ys then Inr (map2 f xs ys)
      else if length xs = 1 then Inr (map (f (hd xs)) ys)
      else if length ys = 1 then Inr (map (\<lambda>x. f x (hd ys)) xs)
      else Inl (ValueError ''operands could not be broadcast together''))"

fun py_add :: "pyobj \<Rightarrow> pyobj \<Rightarrow> error + pyobj" where
  "py_add (PyTuple xs) (PyTuple ys) = Inr (PyTuple (xs @ ys))"
| "py_add (PyList xs) (PyList ys) = Inr (PyList (xs @ ys))"
| "py_add (PyStr s) (PyStr t) = Inr (PyStr (s @ t))"
| "py_add (PyArray xs) y =
     (if is_list_like y then and_then (broadcast (+) xs (elements y)) (\<lambda>zs. Inr (PyArray zs))
      else Inl TypeError)"
| "py_add x (PyArray ys) =
     (if is_list_like x then and_then (broadcast (+) (elements x) ys) (\<lambda>zs. Inr (PyArray zs))
      else Inl TypeError)"
| "py_add x y = Inl TypeError"

fun tuple_gt :: "int list \<Rightarrow> int list \<Rightarrow> bool" where
  "tuple_gt [] ys = False"
| "tuple_gt (x # xs) [] = True"
| "tuple_gt (x # xs) (y # ys) = (x > y \<or> (x = y \<and> tuple_gt xs ys))"

text \<open>\<^verbatim>\<open>np.all(x > t)\<close> for a tuple \<open>t\<close>.\<close>

fun np_all_gt :: "pyobj \<Rightarrow> int list \<Rightarrow> error + bool" where
  "np_all_gt (PyTuple xs) t = Inr (tuple_gt xs t)"
| "np_all_gt (PyArray xs) t = and_then (broadcast (>) xs t) (\<lambda>bs. Inr (list_all id bs))"
| "np_all_gt other t = Inl TypeError"

text \<open>\<^verbatim>\<open>t - x\<close> for a tuple \<open>t\<close>.\<close>

fun tuple_minus :: "int list \<Rightarrow> pyobj \<Rightarrow> error + pyobj" where
  "tuple_minus t (PyArray xs) = and_then (broadcast (-) t xs) (\<lambda>zs. Inr (PyArray zs))"
| "tuple_minus t other = Inl TypeError"

text \<open>\<^verbatim>\<open>x[i]\<close> on a list-like, for \<open>i\<close> not negative.\<close>

definition py_index :: "pyobj \<Rightarrow> nat \<Rightarrow> error + int" where
  "py_index x i =
     (if \<not> is_list_like x then Inl TypeError
      else if i < length (elements x) then Inr (elements x ! i)
      else Inl IndexError)"

text \<open>The truth value of \<^verbatim>\<open>x == s\<close> for a string \<open>s\<close>, as \<^verbatim>\<open>if\<close> and \<^verbatim>\<open>in\<close> take it.\<close>

fun py_eq_str :: "pyobj \<Rightarrow> string \<Rightarrow> error + bool" where
  "py_eq_str (PyStr t) s = Inr (t = s)"
| "py_eq_str (PyArray xs) s =
     (if length xs = 1 then Inr False
      else if xs = [] then Inl (ValueError ''The truth value of an empty array is ambiguous'')
      else Inl (ValueError ''The truth value of an array with more than one element is ambiguous''))"
| "py_eq_str other s = Inr False"

text \<open>\<^verbatim>\<open>x in names\<close> for a list of strings: the entries are compared in turn.\<close>

fun py_in_strs :: "pyobj \<Rightarrow> string list \<Rightarrow> error + bool" where
  "py_in_strs x [] = Inr False"
| "py_in_strs x (s # names) =
     and_then (py_eq_str x s) (\<lambda>found. if found then Inr True else py_in_strs x names)"

text \<open>\<^verbatim>\<open>image.shape[:2]\<close>, a tuple.\<close>

definition shape2 :: "'a ndarray \<Rightarrow> int list" where
  "shape2 img = map int (take 2 (shape img))"

text \<open>\<^verbatim>\<open>ImagesBatch._calc_origin\<close> (lines 371-377).\<close>

definition priv_calc_origin :: "'a ndarray \<Rightarrow> pyobj \<Rightarrow> pyobj \<Rightarrow> error + pyobj" where
  "priv_calc_origin img origin shp =
     and_then (py_eq_str origin ''top_left'') (\<lambda>top_left.
       if top_left then Inr (PyTuple [0, 0])
       else and_then (py_eq_str origin ''center'') (\<lambda>center.
         if center then
           (if is_list_like shp
            then and_then (broadcast (-) (shape2 img) (elements shp))
                   (\<lambda>d. Inr (PyArray (map (\<lambda>x. max x 0 div 2) d)))
            else Inl TypeError)
         else Inr origin))"

text \<open>\<^verbatim>\<open>ImagesBatch._crop_image\<close> (lines 380-388).\<close>

definition priv_crop_image :: "'a ndarray \<Rightarrow> pyobj \<Rightarrow> pyobj \<Rightarrow> error + 'a ndarray" where
  "priv_crop_image img origin0 shp0 =
     and_then (priv_calc_origin img origin0 shp0) (\<lambda>origin.
     and_then (py_add origin shp0) (\<lambda>corner.
     and_then (np_all_gt corner (shape2 img)) (\<lambda>outside.
     and_then (if outside then tuple_minus (shape2 img) origin else Inr shp0) (\<lambda>shp.
     and_then (py_index origin 0) (\<lambda>o0.
     and_then (py_index shp 0) (\<lambda>s0.
     and_then (py_index origin 1) (\<lambda>o1.
     and_then (py_index shp 1) (\<lambda>s1.
       getitem_slices img (o0, o0 + s0) (o1, o1 + s1)))))))))"

text \<open>\<^verbatim>\<open>ImagesBatch._crop\<close> (lines 391-394): the body that runs once per record.\<close>

definition priv_crop :: "'a batch \<Rightarrow> int \<Rightarrow> string \<Rightarrow> pyobj \<Rightarrow> pyobj \<Rightarrow> error + 'a ndarray" where
  "priv_crop self ix components origin shp =
     and_then (get self ix components) (\<lambda>img. priv_crop_image img origin shp)"

text \<open>
  \<^verbatim>\<open>BaseImagesBatch.crop\<close> (lines 119-149). The first check evaluates
  \<^verbatim>\<open>origin not in ['top_left', 'center']\<close> before the \<^verbatim>\<open>isinstance\<close> test, so an error of that
  comparison leaves \<^verbatim>\<open>crop\<close> at once. \<^verbatim>\<open>self._crop(components, origin, shape)\<close> passes its
  arguments by position, so \<^verbatim>\<open>assemble\<close> receives no keyword argument.
\<close>

definition crop :: "'a batch \<Rightarrow> string \<Rightarrow> pyobj \<Rightarrow> pyobj \<Rightarrow> 'a outcome" where
  "crop self components origin shp =
     (case py_in_strs origin [''top_left'', ''center''] of
        Inl e \<Rightarrow> Raises e self
      | Inr named \<Rightarrow>
          if \<not> named \<and> \<not> is_list_like origin
          then Raises (ValueError ''origin must be either in ['top_left', 'center'] or one of LIST_LIKE_OBJECTS'') self
          else if is_list_like origin \<and> length (elements origin) \<noteq> 2
          then Raises (ValueError ''origin's length must be equal 2'') self
          else if \<not> is_list_like shp
          then Raises (ValueError ''shape's type must be one of LIST_LIKE_OBJECTS'') self
          else (case inbatch_parallel (\<lambda>self ix. priv_crop self ix components origin shp) self None of
                  Raises e self' \<Rightarrow> Raises e self'
                | Returns r self' \<Rightarrow> Returns ReturnsSelf self'))"

section \<open>Keeping the shape of an image\<close>

text \<open>\<^verbatim>\<open>calc_origin\<close> (lines 50-57). For another \<^verbatim>\<open>crop\<close>, \<^verbatim>\<open>origin\<close> is never assigned.\<close>

definition calc_origin :: "int \<Rightarrow> int \<Rightarrow> string \<Rightarrow> error + int" where
  "calc_origin image_coord shape_coord crop_mode =
     (if crop_mode = ''top_left'' then Inr 0
      else if crop_mode = ''center'' then Inr (\<bar>shape_coord - image_coord\<bar> div 2)
      else Inl UnboundLocalError)"

text \<open>\<^verbatim>\<open>calc_coords\<close> (lines 59-70): \<open>(image_origin, new_image_origin, image_len)\<close>.\<close>

definition calc_coords :: "int \<Rightarrow> int \<Rightarrow> string \<Rightarrow> error + int \<times> int \<times> int" where
  "calc_coords image_coord shape_coord crop_mode =
     (if image_coord < shape_coord
      then and_then (calc_origin image_coord shape_coord crop_mode)
             (\<lambda>new_image_origin. Inr (0, new_image_origin, image_coord))
      else and_then (calc_origin image_coord shape_coord crop_mode)
             (\<lambda>image_origin. Inr (image_origin, 0, shape_coord)))"

text \<open>\<^verbatim>\<open>t[i]\<close> on a tuple of integers, for \<open>i\<close> not negative.\<close>

definition tuple_index :: "int list \<Rightarrow> nat \<Rightarrow> error + int" where
  "tuple_index t i = (if i < length t then Inr (t ! i) else Inl IndexError)"

text \<open>
  \<^verbatim>\<open>preserve_shape_numba\<close> (lines 72-82): the windows \<open>(new_x, new_y, x, y)\<close>, each a pair
  of bounds. \<^verbatim>\<open>image_shape\<close> and \<^verbatim>\<open>shape\<close> are tuples \<open>(width, height)\<close>.
\<close>

definition preserve_shape_numba ::
  "int list \<Rightarrow> int list \<Rightarrow> string
     \<Rightarrow> error + (int \<times> int) \<times> (int \<times> int) \<times> (int \<times> int) \<times> (int \<times> int)" where
  "preserve_shape_numba image_shape shp crop_mode =
     and_then (tuple_index image_shape 0) (\<lambda>image_x.
     and_then (tuple_index shp 0) (\<lambda>shape_x.
     and_then (calc_coords image_x shape_x crop_mode) (\<lambda>(x, new_x, len_x).
     and_then (tuple_index image_shape 1) (\<lambda>image_y.
     and_then (tuple_index shp 1) (\<lambda>shape_y.
     and_then (calc_coords image_y shape_y crop_mode) (\<lambda>(y, new_y, len_y).
       Inr ((new_x, new_x + len_x), (new_y, new_y + len_y), (x, x + len_x), (y, y + len_y))))))))"

text \<open>\<^verbatim>\<open>ImagesBatch.get_image_size\<close> (lines 299-301): \<open>(width, height)\<close>.\<close>

definition get_image_size :: "'a ndarray \<Rightarrow> int list" where
  "get_image_size img = rev (shape2 img)"

text \<open>
  \<^verbatim>\<open>a[r0:r1, c0:c1] = v\<close>. The value is broadcast to the shape of the window: its axes are
  matched with the last axes of the window, and an axis of length 1 is repeated. A value
  that does not fit raises \<^verbatim>\<open>ValueError\<close>.
\<close>

definition broadcastable :: "nat list \<Rightarrow> nat list \<Rightarrow> bool" where
  "broadcastable vs ws \<longleftrightarrow>
     length vs \<le> length ws \<and> list_all2 (\<lambda>v w. v = w \<or> v = 1) vs (drop (length ws - length vs) ws)"

definition broadcast_index :: "nat list \<Rightarrow> nat list \<Rightarrow> nat list" where
  "broadcast_index vs idx =
     map2 (\<lambda>v i. if v = 1 then 0 else i) vs (drop (length idx - length vs) idx)"

definition setitem_slices ::
  "'a ndarray \<Rightarrow> int \<times> int \<Rightarrow> int \<times> int \<Rightarrow> 'a ndarray \<Rightarrow> error + 'a ndarray" where
  "setitem_slices a rows cols v =
     (case shape a of
        h # w # rest \<Rightarrow>
          (let (r0, r1) = slice_indices h (fst rows) (snd rows);
               (c0, c1) = slice_indices w (fst cols) (snd cols)
           in if broadcastable (shape v) ((r1 - r0) # (c1 - c0) # rest)
              then Inr (tabulate (shape a)
                     (\<lambda>idx. if r0 \<le> idx ! 0 \<and> idx ! 0 < r1 \<and> c0 \<le> idx ! 1 \<and> idx ! 1 < c1
                            then item v (broadcast_index (shape v)
                                          ((idx ! 0 - r0) # (idx ! 1 - c0) # drop 2 idx))
                            else item a idx))
              else Inl (ValueError ''could not broadcast input array''))
      | _ \<Rightarrow> Inl IndexError)"

text \<open>\<^verbatim>\<open>ImagesBatch._preserve_shape\<close> (lines 355-362).\<close>

definition priv_preserve_shape :: "('a::zero) ndarray \<Rightarrow> int list \<Rightarrow> string \<Rightarrow> error + 'a ndarray" where
  "priv_preserve_shape img shp crop_mode =
     (let image_size = get_image_size img in
      and_then (preserve_shape_numba image_size shp crop_mode) (\<lambda>(new_x, new_y, x, y).
      and_then (np_zeros (rev shp @ map int (drop 2 (shape img)))) (\<lambda>new_image.
      and_then (getitem_slices img y x) (\<lambda>part.
        setitem_slices new_image new_y new_x part))))"

text \<open>
  The preserve-shape policy in the words of the specification, one axis at a time: the
  origin is 0 for \<^verbatim>\<open>'top_left'\<close> and \<open>\<lfloor>|image - target| / 2\<rfloor>\<close> for \<^verbatim>\<open>'center'\<close>; position \<open>k\<close> of the
  result comes from position \<open>origin + k\<close> of an image that is at least as long as the target
  (a crop), and from position \<open>k - origin\<close> of a shorter image where that exists, being an
  empty (zero) pixel elsewhere (a paste).
\<close>

definition policy_origin :: "string \<Rightarrow> nat \<Rightarrow> nat \<Rightarrow> nat" where
  "policy_origin crop_mode image_extent target_extent =
     (if crop_mode = ''top_left'' then 0
      else nat (\<lfloor>\<bar>real image_extent - real target_extent\<bar> / 2\<rfloor>))"

definition policy_source :: "string \<Rightarrow> nat \<Rightarrow> nat \<Rightarrow> nat \<Rightarrow> nat option" where
  "policy_source crop_mode image_extent target_extent k =
     (let origin = policy_origin crop_mode image_extent target_extent in
      if target_extent \<le> image_extent then Some (origin + k)
      else if origin \<le> k \<and> k < origin + image_extent then Some (k - origin)
      else None)"

section \<open>Scaling and rotating\<close>

text \<open>
  The image kernels \<^verbatim>\<open>scipy.ndimage.interpolation.zoom\<close> and \<^verbatim>\<open>rotate\<close> are outside the
  repository: each is a parameter of the methods that call it (\<open>zoom img factor\<close> with one
  zoom factor per axis, \<open>scipy_rotate img angle reshape\<close>). Python floats are written as reals:
  rounding errors, and the infinities numpy answers a division by zero with, are not
  represented.
  The random generator is represented by what it draws: \<open>u\<close> and \<open>v\<close> are the uniform
  variates of \<open>[0, 1)\<close> that \<^verbatim>\<open>np.random.binomial(1, p)\<close> and \<^verbatim>\<open>np.random.uniform(lo, hi)\<close>
  turn into their results.
\<close>

definition np_random_binomial :: "real \<Rightarrow> real \<Rightarrow> error + nat" where
  "np_random_binomial u p =
     (if p < 0 then Inl (ValueError ''p < 0'')
      else if 1 < p then Inl (ValueError ''p > 1'')
      else Inr (if u < p then 1 else 0))"

definition np_random_uniform :: "real \<Rightarrow> real \<times> real \<Rightarrow> real" where
  "np_random_uniform v bounds = fst bounds + (snd bounds - fst bounds) * v"

text \<open>\<^verbatim>\<open>np.round\<close> rounds half to even; \<^verbatim>\<open>astype(np.int16)\<close> keeps the low 16 bits.\<close>

definition np_round :: "real \<Rightarrow> int" where
  "np_round x =
     (let f = \<lfloor>x\<rfloor>; d = x - of_int f
      in if d < 1 / 2 then f else if 1 / 2 < d then f + 1 else if even f then f else f + 1)"

definition astype_int16 :: "int \<Rightarrow> int" where
  "astype_int16 z = sint (word_of_int z :: 16 word)"

text \<open>
  \<^verbatim>\<open>ImagesBatch._resize_one\<close> (lines 346-353): the zoom factors are the entries of
  \<^verbatim>\<open>shape\<close> divided by those of \<^verbatim>\<open>image.shape[:2]\<close>, followed by a factor 1 for every
  further axis.
\<close>

definition priv_resize_one ::
  "('a ndarray \<Rightarrow> real list \<Rightarrow> error + 'a ndarray) \<Rightarrow> 'a batch \<Rightarrow> int \<Rightarrow> string \<Rightarrow> int list
     \<Rightarrow> error + 'a ndarray" where
  "priv_resize_one zoom self ix components shp =
     and_then (get self ix components) (\<lambda>img.
     and_then (broadcast (\<lambda>a b. real_of_int a / real_of_int b) shp (shape2 img)) (\<lambda>factor.
       zoom img (if 2 < length (shape img)
                 then factor @ replicate (length (drop 2 (shape img))) 1
                 else factor)))"

text \<open>\<^verbatim>\<open>BaseImagesBatch.random_scale\<close> (lines 186-216): the body that runs once per record.\<close>

definition random_scale ::
  "(('a::zero) ndarray \<Rightarrow> real list \<Rightarrow> error + 'a ndarray) \<Rightarrow> real \<Rightarrow> real \<Rightarrow> 'a batch \<Rightarrow> int
     \<Rightarrow> string \<Rightarrow> real \<Rightarrow> (real \<times> real) option \<Rightarrow> bool \<Rightarrow> string \<Rightarrow> error + 'a ndarray" where
  "random_scale zoom u v self ix components p factor preserve_shape crop_mode =
     (let factor = (case factor of None \<Rightarrow> (0.9, 1.1) | Some f \<Rightarrow> f) in
      and_then (get self ix components) (\<lambda>img.
      and_then (np_random_binomial u p) (\<lambda>draw.
        if 0 < draw then
          (let scale = np_random_uniform v factor;
               image_size = get_image_size img;
               shp = map (\<lambda>s. astype_int16 (np_round (real_of_int s * scale))) image_size
           in and_then (priv_resize_one zoom self ix components shp) (\<lambda>new_image.
                if preserve_shape then priv_preserve_shape new_image image_size crop_mode
                else Inr new_image))
        else Inr img)))"

text \<open>\<^verbatim>\<open>ImagesBatch._rotate_one\<close> (lines 364-369).\<close>

definition priv_rotate_one ::
  "('a ndarray \<Rightarrow> real \<Rightarrow> bool \<Rightarrow> error + 'a ndarray) \<Rightarrow> 'a batch \<Rightarrow> int \<Rightarrow> string \<Rightarrow> real \<Rightarrow> bool
     \<Rightarrow> error + 'a ndarray" where
  "priv_rotate_one scipy_rotate self ix components angle preserve_shape =
     and_then (get self ix components) (\<lambda>img. scipy_rotate img angle (\<not> preserve_shape))"

text \<open>
  \<^verbatim>\<open>BaseImagesBatch.rotate\<close> (lines 222-239). The method carries \<^verbatim>\<open>@action\<close> only: it
  takes the record identifier itself and returns what \<^verbatim>\<open>_rotate_one\<close> returns.
\<close>

definition rotate ::
  "('a ndarray \<Rightarrow> real \<Rightarrow> bool \<Rightarrow> error + 'a ndarray) \<Rightarrow> 'a batch \<Rightarrow> int \<Rightarrow> string \<Rightarrow> real \<Rightarrow> bool
     \<Rightarrow> 'a outcome" where
  "rotate scipy_rotate self ix components angle preserve_shape =
     (case priv_rotate_one scipy_rotate self ix components angle preserve_shape of
        Inl e \<Rightarrow> Raises e self
      | Inr new_image \<Rightarrow> Returns (ReturnsArray new_image) self)"

text \<open>
  \<^verbatim>\<open>BaseImagesBatch.random_rotate\<close> (lines 241-264), which has both decorators: the body that
  runs once per record, and the method as the caller sees it. \<open>draws ix\<close> are the variates
  drawn in the task of record \<open>ix\<close>.
\<close>

definition random_rotate_one ::
  "('a ndarray \<Rightarrow> real \<Rightarrow> bool \<Rightarrow> error + 'a ndarray) \<Rightarrow> real \<Rightarrow> real \<Rightarrow> 'a batch \<Rightarrow> int \<Rightarrow> string
     \<Rightarrow> real \<Rightarrow> (real \<times> real) option \<Rightarrow> bool \<Rightarrow> error + 'a ndarray" where
  "random_rotate_one scipy_rotate u v self ix components p angle preserve_shape =
     and_then (np_random_binomial u p) (\<lambda>draw.
       if 0 < draw then
         (let angle = (case angle of None \<Rightarrow> (- 45, 45) | Some a \<Rightarrow> a)
          in priv_rotate_one scipy_rotate self ix components (np_random_uniform v angle) preserve_shape)
       else get self ix components)"

definition random_rotate ::
  "('a ndarray \<Rightarrow> real \<Rightarrow> bool \<Rightarrow> error + 'a ndarray) \<Rightarrow> (int \<Rightarrow> real \<times> real) \<Rightarrow> 'a batch \<Rightarrow> string
     \<Rightarrow> real \<Rightarrow> (real \<times> real) option \<Rightarrow> bool \<Rightarrow> 'a outcome" where
  "random_rotate scipy_rotate draws self components p angle preserve_shape =
     inbatch_parallel
       (\<lambda>self ix. random_rotate_one scipy_rotate (fst (draws ix)) (snd (draws ix)) self ix components p angle
                    preserve_shape)
       self None"

section \<open>Component views\<close>

text \<open>
  Modelled from the spec: \<^verbatim>\<open>create_item_class\<close> (\<^verbatim>\<open>batchflow/components.py\<close>) is not among
  the sources; its tests (\<^verbatim>\<open>batchflow/tests/components_test.py\<close>) are, and they decide
  where the specification leaves a choice. Arrays are objects of a heap: an address is a
  position in the list of all arrays, and a new array gets the next address. A storage is
  array-backed: it has the identifiers of its records, position \<open>i\<close> of every array
  belonging to the \<open>i\<close>-th identifier, and the address of the array of each component. A
  view is an index subset (\<open>None\<close> when the view spans its whole storage), a storage
  reference and the crop flag.
\<close>

type_synonym addr = nat

type_synonym heap = "int list list"

record storage =
  identifiers :: "int list"
  columns :: "(string \<times> addr) list"

record view =
  selection :: "int list option"
  backing :: storage
  is_crop :: bool

definition view_index :: "view \<Rightarrow> int list" where
  "view_index v = (case selection v of None \<Rightarrow> identifiers (backing v) | Some sub \<Rightarrow> sub)"

text \<open>
  Modelled from the spec: the index resolver maps an identifier to its position in the
  backing array; an identifier that is absent is a \<^verbatim>\<open>KeyError\<close>.
\<close>

definition lookup :: "heap \<Rightarrow> storage \<Rightarrow> addr \<Rightarrow> int \<Rightarrow> error + int" where
  "lookup h st a ident =
     (case get_pos (identifiers st) ident of
        None \<Rightarrow> Inl KeyError
      | Some pos \<Rightarrow> if pos < length (h ! a) then Inr ((h ! a) ! pos) else Inl IndexError)"

fun gather :: "heap \<Rightarrow> storage \<Rightarrow> addr \<Rightarrow> int list \<Rightarrow> error + int list" where
  "gather h st a [] = Inr []"
| "gather h st a (ident # rest) =
     and_then (lookup h st a ident) (\<lambda>x. and_then (gather h st a rest) (\<lambda>xs. Inr (x # xs)))"

text \<open>
  Modelled from the spec: \<^verbatim>\<open>create(component_names, source)\<close> over raw arrays builds the
  root view, whose index is the positions \<open>0..n-1\<close> and whose storage is the arrays
  themselves. \<^verbatim>\<open>create(component_names, source, index_subset, crop)\<close> over a view narrows it:
  with \<^verbatim>\<open>crop=False\<close> the new view has the subset as its index and aliases the storage of
  its parent; with \<^verbatim>\<open>crop=True\<close> the selected records are copied into new arrays, which the
  new view owns and spans.
\<close>

definition create_root :: "heap \<Rightarrow> string list \<Rightarrow> addr list \<Rightarrow> view" where
  "create_root h component_names source =
     \<lparr>selection = None,
      backing = \<lparr>identifiers = (case source of [] \<Rightarrow> [] | a # as \<Rightarrow> map int [0..<length (h ! a)]),
                 columns = zip component_names source\<rparr>,
      is_crop = False\<rparr>"

fun copy_columns ::
  "heap \<Rightarrow> storage \<Rightarrow> (string \<times> addr) list \<Rightarrow> int list \<Rightarrow> error + heap \<times> (string \<times> addr) list" where
  "copy_columns h st [] sub = Inr (h, [])"
| "copy_columns h st ((name, a) # cols) sub =
     and_then (gather h st a sub) (\<lambda>copied.
     and_then (copy_columns (h @ [copied]) st cols sub) (\<lambda>(h', cols').
       Inr (h', (name, length h) # cols')))"

definition create :: "heap \<Rightarrow> view \<Rightarrow> int list \<Rightarrow> bool \<Rightarrow> error + heap \<times> view" where
  "create h source index_subset crop_flag =
     (if \<not> list_all (\<lambda>ident. ident \<in> set (view_index source)) index_subset then Inl KeyError
      else if crop_flag then
        and_then (copy_columns h (backing source) (columns (backing source)) index_subset)
          (\<lambda>(h', cols').
             Inr (h', \<lparr>selection = None,
                       backing = \<lparr>identifiers = index_subset, columns = cols'\<rparr>,
                       is_crop = True\<rparr>))
      else Inr (h, \<lparr>selection = Some index_subset, backing = backing source, is_crop = False\<rparr>))"

text \<open>
  Modelled from the spec: \<^verbatim>\<open>view[id]\<close> is the view of the one identifier, aliasing the
  storage of the view; an identifier outside the index of the view is a \<^verbatim>\<open>KeyError\<close>.
\<close>

definition getitem_view :: "view \<Rightarrow> int \<Rightarrow> error + view" where
  "getitem_view v ident =
     (if ident \<in> set (view_index v)
      then Inr \<lparr>selection = Some [ident], backing = backing v, is_crop = False\<rparr>
      else Inl KeyError)"

text \<open>
  Modelled from the spec: \<^verbatim>\<open>view.component\<close> returns the value of the component restricted
  to the index of the view, in index order. A view that spans its storage returns the array
  of the storage itself. A view narrowed to a subset returns a new array holding the
  selected values (\<^verbatim>\<open>test_getattr_setitem1\<close>: an assignment into the array read from a
  narrowed view is seen through no view).
\<close>

definition getattr :: "heap \<Rightarrow> view \<Rightarrow> string \<Rightarrow> error + heap \<times> addr" where
  "getattr h v name =
     (case map_of (columns (backing v)) name of
        None \<Rightarrow> Inl AttributeError
      | Some a \<Rightarrow>
          (case selection v of
             None \<Rightarrow> Inr (h, a)
           | Some sub \<Rightarrow> and_then (gather h (backing v) a sub) (\<lambda>selected. Inr (h @ [selected], length h))))"

definition read_component :: "heap \<Rightarrow> view \<Rightarrow> string \<Rightarrow> error + int list" where
  "read_component h v name = and_then (getattr h v name) (\<lambda>(h', a). Inr (h' ! a))"

definition read_at :: "heap \<Rightarrow> view \<Rightarrow> string \<Rightarrow> int \<Rightarrow> error + int" where
  "read_at h v name ident =
     and_then (getitem_view v ident) (\<lambda>w.
     and_then (read_component h w name) (\<lambda>xs. case xs of [x] \<Rightarrow> Inr x | _ \<Rightarrow> Inl IndexError))"

text \<open>\<^verbatim>\<open>array[i] = x\<close> on an array of the heap.\<close>

definition setitem :: "heap \<Rightarrow> addr \<Rightarrow> nat \<Rightarrow> int \<Rightarrow> error + heap" where
  "setitem h a i x = (if i < length (h ! a) then Inr (h[a := (h ! a)[i := x]]) else Inl IndexError)"

text \<open>
  Modelled from the spec: \<^verbatim>\<open>view.component = value\<close> replaces the backing of the component
  within the reach of the view: a view that spans its storage replaces the whole array (a
  value of another length is a \<^verbatim>\<open>ValueError\<close>), a narrowed view writes the records of its
  index in place, in the storage it aliases (\<^verbatim>\<open>test_getitem_setattr1\<close> to
  \<^verbatim>\<open>test_getitem_setattr3\<close>). The value is a scalar or a sequence.
\<close>

datatype assigned = Scalar int | Sequence "int list"

fun scatter :: "heap \<Rightarrow> storage \<Rightarrow> addr \<Rightarrow> (int \<times> int) list \<Rightarrow> error + heap" where
  "scatter h st a [] = Inr h"
| "scatter h st a ((ident, x) # rest) =
     (case get_pos (identifiers st) ident of
        None \<Rightarrow> Inl KeyError
      | Some pos \<Rightarrow> and_then (setitem h a pos x) (\<lambda>h'. scatter h' st a rest))"

definition setattr_view :: "heap \<Rightarrow> view \<Rightarrow> string \<Rightarrow> assigned \<Rightarrow> error + heap" where
  "setattr_view h v name new_value =
     (case map_of (columns (backing v)) name of
        None \<Rightarrow> Inl AttributeError
      | Some a \<Rightarrow>
          (case selection v of
             None \<Rightarrow>
               (case new_value of
                  Sequence xs \<Rightarrow>
                    if length xs = length (identifiers (backing v)) then Inr (h[a := xs])
                    else Inl (ValueError ''length mismatch'')
                | Scalar x \<Rightarrow> Inl (ValueError ''length mismatch''))
           | Some sub \<Rightarrow>
               (case new_value of
                  Scalar x \<Rightarrow> scatter h (backing v) a (map (\<lambda>ident. (ident, x)) sub)
                | Sequence xs \<Rightarrow>
                    if length xs = length sub then scatter h (backing v) a (zip sub xs)
                    else Inl (ValueError ''length mismatch''))))"

text \<open>
  The fixtures of the tests (\<^verbatim>\<open>components_test.py\<close>, lines 26-47): \<^verbatim>\<open>common_data\<close> with the
  arrays \<^verbatim>\<open>images\<close> at address 0 and \<^verbatim>\<open>labels\<close> at address 1, \<^verbatim>\<open>make_components\<close> and
  \<^verbatim>\<open>tuple_of_arrays\<close>.
\<close>

definition common_data :: heap where
  "common_data = [map (\<lambda>i. int i + 1000) [0..<100], map (\<lambda>i. int i + 100) [0..<100]]"

definition make_components ::
  "heap \<Rightarrow> string list \<Rightarrow> addr list \<Rightarrow> error + heap \<times> view \<times> view \<times> view \<times> view \<times> view \<times> view \<times> view" where
  "make_components h component_names source =
     (let a0 = create_root h component_names source in
      and_then (create h a0 (map int [12..<68]) False) (\<lambda>(h1, a1).
      and_then (create h1 a1 (map int [25..<48]) True) (\<lambda>(h2, a2).
      and_then (create h2 a2 (map int [32..<42]) False) (\<lambda>(h3, a3).
      and_then (create h3 a3 (map int [35..<40]) True) (\<lambda>(h4, a4).
      and_then (create h4 a4 (map int [37..<39]) False) (\<lambda>(h5, a5).
      and_then (create h5 a5 [38] False) (\<lambda>(h6, a6).
        Inr (h6, a0, a1, a2, a3, a4, a5, a6))))))))"

definition tuple_of_arrays ::
  "error + heap \<times> view \<times> view \<times> view \<times> view \<times> view \<times> view \<times> view" where
  "tuple_of_arrays = make_components common_data [''images'', ''labels''] [0, 1]"

section \<open>Properties\<close>

subsection \<open>Arrays\<close>

lemma length_ndindex: "length (ndindex s) = prod_list s"
proof (induction s)
  case Nil show ?case by simp
next
  case (Cons n s)
  have "length (concat (map (\<lambda>i. map ((#) i) (ndindex s)) [0..<n])) = n * prod_list s"
    by (induction n) (simp_all add: Cons)
  then show ?case by simp
qed

lemma nth_concat_uniform:
  "(\<And>k. k < n \<Longrightarrow> length (g k) = p) \<Longrightarrow> i < n \<Longrightarrow> j < p \<Longrightarrow>
     concat (map g [0..<n]) ! (i * p + j) = g i ! j"
proof (induction n)
  case 0 then show ?case by simp
next
  case (Suc n)
  have len: "length (concat (map g [0..<n])) = n * p"
    using Suc.prems(1) by (induction n) simp_all
  show ?case
  proof (cases "i < n")
    case True
    have "i * p + j < n * p"
    proof -
      have "i * p + j < i * p + p" using Suc.prems(3) by simp
      also have "\<dots> = Suc i * p" by simp
      also have "\<dots> \<le> n * p" using True by (intro mult_le_mono1) simp
      finally show ?thesis .
    qed
    then show ?thesis using Suc True len by (simp add: nth_append)
  next
    case False
    then have "i = n" using Suc.prems(2) by simp
    then show ?thesis using len by (simp add: nth_append)
  qed
qed

lemma ravel_index_less: "in_bounds idx s \<Longrightarrow> ravel_index s idx < prod_list s"
  unfolding in_bounds_def
proof (induction idx s rule: list_all2_induct)
  case Nil show ?case by simp
next
  case (Cons i idx n s)
  have "i * prod_list s + ravel_index s idx < i * prod_list s + prod_list s"
    using Cons by simp
  also have "\<dots> = Suc i * prod_list s" by simp
  also have "\<dots> \<le> n * prod_list s" using Cons.hyps(1) by (intro mult_le_mono1) simp
  finally show ?case by simp
qed

lemma ndindex_nth: "in_bounds idx s \<Longrightarrow> ndindex s ! ravel_index s idx = idx"
  unfolding in_bounds_def
proof (induction idx s rule: list_all2_induct)
  case Nil show ?case by simp
next
  case (Cons i idx n s)
  have r: "ravel_index s idx < prod_list s"
    using Cons.hyps(2) by (simp add: ravel_index_less in_bounds_def)
  have "concat (map (\<lambda>i. map ((#) i) (ndindex s)) [0..<n]) ! (i * prod_list s + ravel_index s idx)
        = map ((#) i) (ndindex s) ! ravel_index s idx"
    by (rule nth_concat_uniform) (use Cons.hyps(1) r in \<open>simp_all add: length_ndindex\<close>)
  then show ?case using r Cons.IH by (simp add: length_ndindex)
qed

lemma item_tabulate: "in_bounds idx s \<Longrightarrow> item (tabulate s f) idx = f idx"
  by (simp add: item_def tabulate_def ndindex_nth ravel_index_less length_ndindex)

lemma shape_tabulate: "shape (tabulate s f) = s"
  by (simp add: tabulate_def)

lemma well_formed_tabulate: "well_formed (tabulate s f)"
  by (simp add: tabulate_def well_formed_def length_ndindex)

lemma map2_min_same: "map2 min xs xs = (xs :: nat list)"
  by (induction xs) simp_all

lemma Min_insert_min:
  "finite A \<Longrightarrow> Min (insert (min a b) A) = Min (insert (a::nat) (insert b A))"
  by (cases "A = {}") (simp_all add: min.assoc)

lemma foldl_map2_min:
  fixes rest :: "nat list"
  shows "\<forall>t\<in>set ss. \<exists>h w. t = h # w # rest \<Longrightarrow>
   foldl (\<lambda>m t. map2 min m t) (h0 # w0 # rest) ss
     = Min (insert h0 ((\<lambda>t. t ! 0) ` set ss)) # Min (insert w0 ((\<lambda>t. t ! 1) ` set ss)) # rest"
proof (induction ss arbitrary: h0 w0)
  case Nil show ?case by simp
next
  case (Cons t ss)
  then obtain h w where t: "t = h # w # rest" by auto
  have step: "foldl (\<lambda>m t. map2 min m t) (h0 # w0 # rest) (t # ss)
        = foldl (\<lambda>m t. map2 min m t) (min h0 h # min w0 w # rest) ss"
    by (simp add: t zip_same_conv_map comp_def)
  have ih: "foldl (\<lambda>m t. map2 min m t) (min h0 h # min w0 w # rest) ss
        = Min (insert (min h0 h) ((\<lambda>t. t ! 0) ` set ss))
          # Min (insert (min w0 w) ((\<lambda>t. t ! 1) ` set ss)) # rest"
    using Cons.prems by (intro Cons.IH) simp
  have m0: "Min (insert (min h0 h) ((\<lambda>t. t ! 0) ` set ss))
        = Min (insert h0 ((\<lambda>t. t ! 0) ` set (t # ss)))"
    using Min_insert_min[of "(\<lambda>t. t ! 0) ` set ss" h0 h] by (simp add: t)
  have m1: "Min (insert (min w0 w) ((\<lambda>t. t ! 1) ` set ss))
        = Min (insert w0 ((\<lambda>t. t ! 1) ` set (t # ss)))"
    using Min_insert_min[of "(\<lambda>t. t ! 1) ` set ss" w0 w] by (simp add: t)
  show ?case unfolding step ih m0 m1 ..
qed

lemma min_shape_images:
  assumes "all_res \<noteq> []" and "\<forall>a\<in>set all_res. \<exists>h w. shape a = h # w # rest"
  shows "min_shape (map shape all_res)
         = Inr (Min ((\<lambda>a. shape a ! 0) ` set all_res) # Min ((\<lambda>a. shape a ! 1) ` set all_res) # rest)"
proof -
  obtain a as where all_res: "all_res = a # as" using assms(1) by (cases all_res) auto
  obtain h w where a: "shape a = h # w # rest" using assms(2) all_res by auto
  have len: "list_all (\<lambda>t. length t = length (shape a)) (map shape as)"
    using assms(2) all_res a by (fastforce simp: list_all_iff)
  have "\<forall>t\<in>set (map shape as). \<exists>h w. t = h # w # rest"
    using assms(2) all_res by auto
  from foldl_map2_min[OF this, of h w]
  have "foldl (\<lambda>m t. map2 min m t) (shape a) (map shape as)
        = Min ((\<lambda>a. shape a ! 0) ` set all_res) # Min ((\<lambda>a. shape a ! 1) ` set all_res) # rest"
    by (simp add: a all_res image_image)
  then show ?thesis using len by (simp add: min_shape_def all_res)
qed

lemma slice_indices_prefix: "m \<le> n \<Longrightarrow> slice_indices n 0 (int m) = (0, m)"
  by (simp add: slice_indices_def clip_bound_def)

lemma crop_all_images:
  assumes "\<forall>a\<in>set arrs. \<exists>h w. shape a = h # w # rest \<and> m0 \<le> h \<and> m1 \<le> w"
  shows "crop_all arrs (int m0) (int m1)
         = Inr (map (\<lambda>a. tabulate (m0 # m1 # rest) (\<lambda>idx. item a (idx ! 0 # idx ! 1 # drop 2 idx))) arrs)"
  using assms
proof (induction arrs)
  case Nil show ?case by simp
next
  case (Cons a arrs)
  then obtain h w where a: "shape a = h # w # rest" "m0 \<le> h" "m1 \<le> w" by auto
  have "getitem_slices a (0, int m0) (0, int m1)
        = Inr (tabulate (m0 # m1 # rest) (\<lambda>idx. item a (idx ! 0 # idx ! 1 # drop 2 idx)))"
    using a by (simp add: getitem_slices_def slice_indices_prefix)
  then show ?case using Cons by simp
qed

lemma in_bounds_two: "in_bounds idx (m0 # m1 # rest) \<Longrightarrow> idx ! 0 # idx ! Suc 0 # drop 2 idx = idx"
  by (auto simp: in_bounds_def list_all2_Cons2)

lemma np_stack_same_shape:
  "arrays \<noteq> [] \<Longrightarrow> \<forall>a\<in>set arrays. shape a = s \<Longrightarrow>
   np_stack arrays = Inr (NDArray (length arrays # s) (concat (map data arrays)))"
  by (cases arrays) (auto simp: np_stack_def list_all_iff)

lemma np_stack_mismatch:
  "arrays \<noteq> [] \<Longrightarrow> \<exists>a\<in>set arrays. shape a \<noteq> shape (hd arrays) \<Longrightarrow>
   np_stack arrays = Inl (ValueError ''all input arrays must have the same shape'')"
  by (cases arrays) (auto simp: np_stack_def list_all_iff)

subsection \<open>\<^verbatim>\<open>assemble_component\<close>\<close>

text \<open>
  Claim C1, as amended. When the per-record results are images of one rank (at least two
  axes) that agree on every axis after the first two, and their shapes are not all equal
  (so that \<^verbatim>\<open>np.stack\<close> raises the shape mismatch), \<^verbatim>\<open>assemble_component\<close> raises nothing:
  it crops every result to the minimum of the first axis and of the second axis over all
  results, keeping the elements at the indices that remain, stacks the cropped results and
  installs the stack as the new value of the component.
\<close>

theorem assemble_component_minimal_shape:
  fixes all_res :: "'a ndarray list"
  assumes nonempty: "all_res \<noteq> []"
    and images: "\<forall>a\<in>set all_res. \<exists>h w. shape a = h # w # rest"
    and unequal: "\<exists>a\<in>set all_res. shape a \<noteq> shape (hd all_res)"
  shows "\<exists>cropped new_images.
      length cropped = length all_res
    \<and> (\<forall>i<length all_res.
          shape (cropped ! i) = Min ((\<lambda>a. shape a ! 0) ` set all_res) # Min ((\<lambda>a. shape a ! 1) ` set all_res) # rest
        \<and> (\<forall>idx. in_bounds idx (shape (cropped ! i)) \<longrightarrow> item (cropped ! i) idx = item (all_res ! i) idx))
    \<and> np_stack cropped = Inr new_images
    \<and> shape new_images
        = length all_res # Min ((\<lambda>a. shape a ! 0) ` set all_res) # Min ((\<lambda>a. shape a ! 1) ` set all_res) # rest
    \<and> assemble_component self all_res components = Returns ReturnsNone (setattr self components new_images)"
proof -
  define m0 where "m0 = Min ((\<lambda>a. shape a ! 0) ` set all_res)"
  define m1 where "m1 = Min ((\<lambda>a. shape a ! 1) ` set all_res)"
  define cropped where
    "cropped = map (\<lambda>a. tabulate (m0 # m1 # rest) (\<lambda>idx. item a (idx ! 0 # idx ! 1 # drop 2 idx))) all_res"
  define new_images where
    "new_images = NDArray (length cropped # m0 # m1 # rest) (concat (map data cropped))"
  have fits: "\<forall>a\<in>set all_res. \<exists>h w. shape a = h # w # rest \<and> m0 \<le> h \<and> m1 \<le> w"
  proof
    fix a assume a: "a \<in> set all_res"
    then obtain h w where s: "shape a = h # w # rest" using images by auto
    have "m0 \<le> shape a ! 0" unfolding m0_def using a by (intro Min_le) auto
    moreover have "m1 \<le> shape a ! 1" unfolding m1_def using a by (intro Min_le) auto
    ultimately show "\<exists>h w. shape a = h # w # rest \<and> m0 \<le> h \<and> m1 \<le> w" using s by simp
  qed
  have stack1: "np_stack all_res = Inl (ValueError ''all input arrays must have the same shape'')"
    by (rule np_stack_mismatch[OF nonempty unequal])
  have ms: "min_shape (map shape all_res) = Inr (m0 # m1 # rest)"
    unfolding m0_def m1_def by (rule min_shape_images[OF nonempty images])
  have crop: "crop_all all_res (int m0) (int m1) = Inr cropped"
    unfolding cropped_def by (rule crop_all_images[OF fits])
  have stack2: "np_stack cropped = Inr new_images"
    unfolding new_images_def
    by (rule np_stack_same_shape) (use nonempty in \<open>auto simp: cropped_def shape_tabulate\<close>)
  have "assemble_component self all_res components = Returns ReturnsNone (setattr self components new_images)"
    by (simp add: assemble_component_def stack1 ms crop stack2)
  moreover have "length cropped = length all_res" by (simp add: cropped_def)
  moreover have "\<forall>i<length all_res. shape (cropped ! i) = m0 # m1 # rest
        \<and> (\<forall>idx. in_bounds idx (shape (cropped ! i)) \<longrightarrow> item (cropped ! i) idx = item (all_res ! i) idx)"
    by (simp add: cropped_def shape_tabulate item_tabulate in_bounds_two)
  moreover have "shape new_images = length all_res # m0 # m1 # rest"
    by (simp add: new_images_def cropped_def)
  ultimately show ?thesis using stack2 unfolding m0_def m1_def by blast
qed

text \<open>Two results of shapes \<open>(1, 2)\<close> and \<open>(2, 1)\<close> are assembled into a stack of shape \<open>(2, 1, 1)\<close>.\<close>

theorem assemble_component_minimal_shape_witness:
  "\<exists>new_images.
      shape new_images = [2, 1, 1]
    \<and> assemble_component \<lparr>indices = [0, 1], comps = Map.empty, console = []\<rparr>
         [NDArray [1, 2] [0::int, 1], NDArray [2, 1] [5, 6]] ''images''
      = Returns ReturnsNone
          (setattr \<lparr>indices = [0, 1], comps = Map.empty, console = []\<rparr> ''images'' new_images)"
proof -
  let ?res = "[NDArray [1, 2] [0::int, 1], NDArray [2, 1] [5, 6]]"
  have nonempty: "?res \<noteq> []" by simp
  have images: "\<forall>a\<in>set ?res. \<exists>h w. shape a = h # w # []" by simp
  have unequal: "\<exists>a\<in>set ?res. shape a \<noteq> shape (hd ?res)" by simp
  from assemble_component_minimal_shape [OF nonempty images unequal]
  obtain new_images where
    "shape new_images
       = length ?res # Min ((\<lambda>a. shape a ! 0) ` set ?res) # Min ((\<lambda>a. shape a ! 1) ` set ?res) # []"
    "assemble_component \<lparr>indices = [0, 1], comps = Map.empty, console = []\<rparr> ?res ''images''
       = Returns ReturnsNone
           (setattr \<lparr>indices = [0, 1], comps = Map.empty, console = []\<rparr> ''images'' new_images)"
    by blast
  then show ?thesis by (intro exI [of _ new_images]) simp
qed

text \<open>
  Claim C1 as stated fails for results whose shapes differ on a later axis: the crop
  touches the first two axes only, so the second \<^verbatim>\<open>np.stack\<close> raises \<^verbatim>\<open>ValueError\<close>.
\<close>

theorem assemble_component_trailing_axes_counterexample:
  "np_stack [NDArray [1, 1, 1] [0::int], NDArray [1, 1, 2] [0, 0]]
     = Inl (ValueError ''all input arrays must have the same shape'')
   \<and> assemble_component \<lparr>indices = [0, 1], comps = Map.empty, console = []\<rparr>
         [NDArray [1, 1, 1] [0::int], NDArray [1, 1, 2] [0, 0]] ''images''
     = Raises (ValueError ''all input arrays must have the same shape'')
         \<lparr>indices = [0, 1], comps = Map.empty, console = []\<rparr>"
  by (simp add: assemble_component_def np_stack_def min_shape_def getitem_slices_def
      slice_indices_def clip_bound_def tabulate_def)

text \<open>
  Claim C10. When \<^verbatim>\<open>np.stack\<close> raises a \<^verbatim>\<open>ValueError\<close> whose message does not contain
  \<^verbatim>\<open>must have the same shape\<close>, \<^verbatim>\<open>assemble_component\<close> does not propagate it and installs
  nothing: it raises \<^verbatim>\<open>UnboundLocalError\<close> and leaves the batch as it was.
\<close>

theorem assemble_component_unbound_local:
  assumes "np_stack all_res = Inl (ValueError message)"
    and "\<not> str_contains ''must have the same shape'' message"
  shows "assemble_component self all_res components = Raises UnboundLocalError self"
  using assms by (simp add: assemble_component_def)

text \<open>An empty list of results: \<^verbatim>\<open>np.stack\<close> needs at least one array.\<close>

theorem assemble_component_unbound_local_witness:
  "assemble_component \<lparr>indices = [], comps = Map.empty, console = []\<rparr> ([] :: int ndarray list) ''images''
     = Raises UnboundLocalError \<lparr>indices = [], comps = Map.empty, console = []\<rparr>"
  using assemble_component_unbound_local
    [of "[] :: int ndarray list" "''need at least one array to stack''"
        "\<lparr>indices = [], comps = Map.empty, console = []\<rparr>" "''images''"]
  by (simp add: np_stack_def)

subsection \<open>\<^verbatim>\<open>assemble\<close>\<close>

lemma first_failure:
  "any_action_failed all_res \<Longrightarrow>
   \<exists>pre e t post. all_res = pre @ Failed e t # post \<and> \<not> any_action_failed pre
      \<and> errors_of all_res = (e, t) # errors_of post"
proof (induction all_res)
  case Nil then show ?case by (simp add: any_action_failed_def)
next
  case (Cons r rs)
  show ?case
  proof (cases r)
    case (Failed e t)
    have "r # rs = [] @ Failed e t # rs \<and> \<not> any_action_failed ([] :: 'a result list)
          \<and> errors_of (r # rs) = (e, t) # errors_of rs"
      by (simp add: Failed any_action_failed_def)
    then show ?thesis by blast
  next
    case (Done a)
    then have "any_action_failed rs" using Cons.prems by (simp add: any_action_failed_def)
    then obtain pre e t post where
      "rs = pre @ Failed e t # post" "\<not> any_action_failed pre" "errors_of rs = (e, t) # errors_of post"
      using Cons.IH by blast
    then have "r # rs = (r # pre) @ Failed e t # post \<and> \<not> any_action_failed (r # pre)
          \<and> errors_of (r # rs) = (e, t) # errors_of post"
      by (simp add: Done any_action_failed_def)
    then show ?thesis by blast
  qed
qed

text \<open>
  Claim C2. When at least one per-record task failed, \<^verbatim>\<open>assemble\<close> raises
  \<^verbatim>\<open>RuntimeError('Could not assemble the batch')\<close>. Before that it prints the captured
  errors, the first of which is the error of the first failed record, and the traceback of
  that first error. No component is assembled: the components and the index of the batch
  are as they were.
\<close>

theorem assemble_raises_on_failed_task:
  assumes "any_action_failed all_res"
  shows "\<exists>pre e t post self'.
      all_res = pre @ Failed e t # post \<and> \<not> any_action_failed pre
    \<and> assemble self all_res kwargs = Raises (RuntimeError ''Could not assemble the batch'') self'
    \<and> comps self' = comps self \<and> indices self' = indices self
    \<and> console self' = console self @ [PrintErrors (Some ((e, t) # errors_of post)), PrintTb t]"
proof -
  obtain pre e t post where split:
    "all_res = pre @ Failed e t # post" "\<not> any_action_failed pre"
    "errors_of all_res = (e, t) # errors_of post"
    using first_failure[OF assms] by blast
  have "assemble self all_res kwargs
        = Raises (RuntimeError ''Could not assemble the batch'')
            (py_print (PrintTb t) (py_print (PrintErrors (Some ((e, t) # errors_of post))) self))"
    using assms split(3) by (simp add: assemble_def get_errors_def Let_def)
  then show ?thesis using split(1,2) by (auto simp: py_print_def)
qed

text \<open>The second of two tasks failed with \<^verbatim>\<open>TypeError\<close>.\<close>

theorem assemble_raises_on_failed_task_witness:
  "assemble \<lparr>indices = [0, 1], comps = [''images'' \<mapsto> NDArray [2] [5, 6::int]], console = []\<rparr>
     [Done (NDArray [] [5]), Failed TypeError (RaisedIn 1)] None
   = Raises (RuntimeError ''Could not assemble the batch'')
       \<lparr>indices = [0, 1], comps = [''images'' \<mapsto> NDArray [2] [5, 6::int]],
        console = [PrintErrors (Some [(TypeError, RaisedIn 1)]), PrintTb (RaisedIn 1)]\<rparr>"
proof -
  let ?self = "\<lparr>indices = [0, 1], comps = [''images'' \<mapsto> NDArray [2] [5, 6::int]], console = []\<rparr>"
  let ?res = "[Done (NDArray [] [5::int]), Failed TypeError (RaisedIn 1)]"
  have failed: "any_action_failed ?res" by (simp add: any_action_failed_def)
  from assemble_raises_on_failed_task [OF failed, of ?self None]
  obtain pre e t post self' where w:
    "?res = pre @ Failed e t # post" "\<not> any_action_failed pre"
    "assemble ?self ?res None = Raises (RuntimeError ''Could not assemble the batch'') self'"
    "comps self' = comps ?self" "indices self' = indices ?self"
    "console self' = console ?self @ [PrintErrors (Some ((e, t) # errors_of post)), PrintTb t]"
    by blast
  have "pre = [Done (NDArray [] [5])] \<and> e = TypeError \<and> t = RaisedIn 1 \<and> post = []"
    using w(1,2) by (cases pre; cases "tl pre") (auto simp: any_action_failed_def)
  then have "self' = \<lparr>indices = [0, 1], comps = [''images'' \<mapsto> NDArray [2] [5, 6::int]],
        console = [PrintErrors (Some [(TypeError, RaisedIn 1)]), PrintTb (RaisedIn 1)]\<rparr>"
    using w(4,5,6) by (cases self') simp
  then show ?thesis using w(3) by simp
qed

subsection \<open>\<^verbatim>\<open>crop\<close>\<close>

text \<open>
  Claim C3 fails on the code. \<^verbatim>\<open>crop\<close> checks the length of \<^verbatim>\<open>origin\<close> but only the type
  of \<^verbatim>\<open>shape\<close>: a shape of three entries passes the validation, the per-record work is
  dispatched and the batch is cropped to the first two entries, with no \<^verbatim>\<open>ValueError\<close>.
\<close>

theorem crop_accepts_longer_shape:
  "crop \<lparr>indices = [7], comps = [''images'' \<mapsto> NDArray [1, 2, 2] [1, 2, 3, 4::int]], console = []\<rparr>
        ''images'' (PyStr ''top_left'') (PyTuple [1, 1, 1])
   = Returns ReturnsSelf
       \<lparr>indices = [7], comps = [''images'' \<mapsto> NDArray [1, 1, 1] [1]], console = []\<rparr>"
proof -
  let ?self = "\<lparr>indices = [7], comps = [''images'' \<mapsto> NDArray [1, 2, 2] [1, 2, 3, 4::int]], console = []\<rparr>"
  have task: "priv_crop ?self 7 ''images'' (PyStr ''top_left'') (PyTuple [1, 1, 1])
        = Inr (NDArray [1, 1] [1])"
    by code_simp
  have stack: "np_stack [NDArray [1, 1] [1::int]] = Inr (NDArray [1, 1, 1] [1])"
    by code_simp
  have named: "py_in_strs (PyStr ''top_left'') [''top_left'', ''center''] = Inr True"
    by (simp add: and_then_def)
  show ?thesis
    unfolding crop_def named
    using task stack
    by (simp add: inbatch_parallel_def run_task_def assemble_def
        any_action_failed_def assemble_component_def setattr_def)
qed

lemma get_pos_less: "get_pos ixs ix = Some pos \<Longrightarrow> pos < length ixs"
  by (induction ixs arbitrary: pos) (auto split: if_splits)

lemma get_pos_member: "ix \<in> set ixs \<Longrightarrow> \<exists>pos. get_pos ixs ix = Some pos"
  by (induction ixs) auto

lemma get_record:
  assumes "comps self component = Some images" and "shape images = n # s"
    and "ix \<in> set (indices self)" and "length (indices self) \<le> n"
  shows "\<exists>img. get self ix component = Inr img \<and> shape img = s"
proof -
  obtain pos where pos: "get_pos (indices self) ix = Some pos"
    using get_pos_member[OF assms(3)] by blast
  then have "pos < n" using get_pos_less assms(4) by fastforce
  then show ?thesis using assms(1,2) pos by (simp add: get_def getitem_def shape_tabulate)
qed

lemma slice_indices_window:
  "0 \<le> r \<Longrightarrow> 0 \<le> h \<Longrightarrow> r + h \<le> int n \<Longrightarrow> slice_indices n r (r + h) = (nat r, nat r + nat h)"
  by (auto simp: slice_indices_def clip_bound_def Let_def nat_add_distrib)

lemma getitem_slices_window:
  assumes "shape img = H # W # rest" "0 \<le> r" "0 \<le> h" "r + h \<le> int H"
    "0 \<le> c" "0 \<le> w" "c + w \<le> int W"
  shows "\<exists>a. getitem_slices img (r, r + h) (c, c + w) = Inr a \<and> shape a = nat h # nat w # rest"
  using assms by (simp add: getitem_slices_def slice_indices_window shape_tabulate)

lemma priv_calc_origin_top_left:
  "priv_calc_origin img (PyStr ''top_left'') shp = Inr (PyTuple [0, 0])"
  by (simp add: priv_calc_origin_def and_then_def)

lemma priv_calc_origin_center:
  assumes "shape img = H # W # rest" "is_list_like shp" "elements shp = [h, w]"
  shows "priv_calc_origin img (PyStr ''center'') shp
         = Inr (PyArray [max (int H - h) 0 div 2, max (int W - w) 0 div 2])"
  using assms by (simp add: priv_calc_origin_def and_then_def shape2_def broadcast_def)

lemma priv_calc_origin_given:
  "origin = PyTuple xs \<or> origin = PyList xs \<Longrightarrow> priv_calc_origin img origin shp = Inr origin"
  by (auto simp: priv_calc_origin_def and_then_def)

text \<open>
  The window of \<^verbatim>\<open>_crop_image\<close> once \<^verbatim>\<open>_calc_origin\<close> has returned the corner \<open>(r, c)\<close>: the
  slices are taken as asked when the window lies in the image and Python can add the corner
  and the shape and compare the sum with the shape of the image.
\<close>

lemma priv_crop_image_at:
  assumes origin: "priv_calc_origin img origin0 shp = Inr origin"
    and img: "shape img = H # W # rest"
    and shp: "elements shp = [h, w]" "0 \<le> h" "0 \<le> w"
    and fits: "0 \<le> r" "0 \<le> c" "r + h \<le> int H" "c + w \<le> int W"
    and kinds: "origin = PyTuple [r, c] \<and> shp = PyTuple [h, w] \<and> (r < int H \<or> c < int W)
        \<or> (origin = PyTuple [r, c] \<or> origin = PyList [r, c]) \<and> shp = PyArray [h, w]
        \<or> origin = PyArray [r, c] \<and> is_list_like shp"
  shows "\<exists>a. priv_crop_image img origin0 shp = Inr a \<and> shape a = nat h # nat w # rest"
proof -
  have slices: "\<exists>a. getitem_slices img (r, r + h) (c, c + w) = Inr a \<and> shape a = nat h # nat w # rest"
    using img shp(2,3) fits by (intro getitem_slices_window) simp_all
  have "priv_crop_image img origin0 shp = getitem_slices img (r, r + h) (c, c + w)"
    using kinds img shp fits
    by (auto simp: priv_crop_image_def origin and_then_def shape2_def py_index_def broadcast_def)
  then show ?thesis using slices by simp
qed

lemma run_tasks_done:
  "\<forall>ix\<in>set ixs. \<exists>a. task ix = Inr a \<and> shape a = s \<Longrightarrow>
   \<exists>arrs. map (run_task task) ixs = map Done arrs \<and> length arrs = length ixs
      \<and> (\<forall>a\<in>set arrs. shape a = s)"
proof (induction ixs)
  case Nil then show ?case by simp
next
  case (Cons ix ixs)
  then obtain a where a: "task ix = Inr a" "shape a = s" by auto
  from Cons obtain arrs where
    "map (run_task task) ixs = map Done arrs" "length arrs = length ixs" "\<forall>a\<in>set arrs. shape a = s"
    by auto
  then have "map (run_task task) (ix # ixs) = map Done (a # arrs) \<and> length (a # arrs) = length (ix # ixs)
      \<and> (\<forall>b\<in>set (a # arrs). shape b = s)"
    using a by (simp add: run_task_def)
  then show ?case by blast
qed

lemma not_failed_Done: "\<not> any_action_failed (map Done arrs)"
  by (induction arrs) (simp_all add: any_action_failed_def)

lemma arrays_of_Done: "arrays_of (map Done arrs) = arrs"
  by (induction arrs) simp_all

lemma inbatch_parallel_images:
  assumes nonempty: "indices self \<noteq> []"
    and tasks: "\<forall>ix\<in>set (indices self). \<exists>a. method self ix = Inr a \<and> shape a = s"
  shows "\<exists>new_images.
      inbatch_parallel method self None = Returns ReturnsSelf (setattr self ''images'' new_images)
    \<and> shape new_images = length (indices self) # s
    \<and> (\<forall>i<length (indices self). \<exists>element. getitem new_images i = Inr element \<and> shape element = s)"
proof -
  obtain arrs where arrs:
    "map (run_task (method self)) (indices self) = map Done arrs"
    "length arrs = length (indices self)" "\<forall>a\<in>set arrs. shape a = s"
    using run_tasks_done[OF tasks] by blast
  define new_images where "new_images = NDArray (length arrs # s) (concat (map data arrs))"
  have "arrs \<noteq> []" using arrs(2) nonempty by auto
  then have stack: "np_stack arrs = Inr new_images"
    unfolding new_images_def using arrs(3) by (rule np_stack_same_shape)
  have "inbatch_parallel method self None = Returns ReturnsSelf (setattr self ''images'' new_images)"
    by (simp add: inbatch_parallel_def arrs(1) assemble_def not_failed_Done arrays_of_Done
        assemble_component_def stack)
  moreover have "shape new_images = length (indices self) # s"
    by (simp add: new_images_def arrs(2))
  moreover have "\<forall>i<length (indices self). \<exists>element. getitem new_images i = Inr element \<and> shape element = s"
    by (simp add: new_images_def arrs(2) getitem_def shape_tabulate)
  ultimately show ?thesis by blast
qed

text \<open>
  Claim C4, as amended. Take a batch that is not empty, whose component is a stack of \<open>n\<close>
  images of \<open>H\<close> rows and \<open>W\<close> columns, and a list-like shape \<open>(h, w)\<close> with \<open>0 \<le> h\<close> and
  \<open>0 \<le> w\<close>. \<^verbatim>\<open>crop\<close> returns the batch, and every element of the assembled component has the
  shape \<open>(h, w, ...)\<close>, when the window lies in the images and Python can add origin and shape:

    \<^item> the origin \<^verbatim>\<open>'center'\<close> with \<open>h \<le> H\<close> and \<open>w \<le> W\<close>, for a tuple, a list or an array as shape;

    \<^item> the origin \<^verbatim>\<open>'top_left'\<close> with \<open>h \<le> H\<close> and \<open>w \<le> W\<close>, or a tuple \<open>(r, c)\<close> with \<open>0 \<le> r\<close>,
      \<open>r + h \<le> H\<close>, \<open>0 \<le> c\<close>, \<open>c + w \<le> W\<close>, for an array as shape, and for a tuple as shape unless
      the corner is \<open>(H, W)\<close> (then the tuple \<open>(r, c, h, w)\<close> compares greater than \<open>(H, W)\<close> and the
      subtraction of two tuples raises \<^verbatim>\<open>TypeError\<close>);

    \<^item> a list \<open>[r, c]\<close> as origin with the same bounds, for an array as shape.

  An array as origin is left out: with current numpy \<^verbatim>\<open>crop\<close> refuses it
  (\<open>crop_refuses_array_origin\<close> below). The result is installed as the component \<^verbatim>\<open>images\<close>,
  since \<^verbatim>\<open>assemble\<close> receives no keyword argument.
\<close>

theorem crop_shape:
  fixes self :: "'a batch"
  assumes images: "comps self components = Some images" "shape images = n # H # W # rest"
    and index: "indices self \<noteq> []" "length (indices self) = n"
    and extent: "is_list_like shp" "elements shp = [h, w]" "0 \<le> h" "0 \<le> w"
    and fits:
      "origin = PyStr ''center'' \<and> h \<le> int H \<and> w \<le> int W
       \<or> (\<exists>r c. (origin = PyStr ''top_left'' \<and> r = 0 \<and> c = 0 \<or> origin = PyTuple [r, c])
              \<and> 0 \<le> r \<and> 0 \<le> c \<and> r + h \<le> int H \<and> c + w \<le> int W
              \<and> (shp = PyTuple [h, w] \<and> (r < int H \<or> c < int W) \<or> shp = PyArray [h, w]))
       \<or> (\<exists>r c. origin = PyList [r, c] \<and> shp = PyArray [h, w]
              \<and> 0 \<le> r \<and> 0 \<le> c \<and> r + h \<le> int H \<and> c + w \<le> int W)"
  shows "\<exists>new_images.
      crop self components origin shp = Returns ReturnsSelf (setattr self ''images'' new_images)
    \<and> shape new_images = n # nat h # nat w # rest
    \<and> (\<forall>i<n. \<exists>element. getitem new_images i = Inr element \<and> shape element = nat h # nat w # rest)"
proof -
  have named: "py_in_strs origin [''top_left'', ''center'']
      = Inr (origin = PyStr ''top_left'' \<or> origin = PyStr ''center'')"
    using fits by (auto simp: and_then_def)
  have known: "\<not> (\<not> (origin = PyStr ''top_left'' \<or> origin = PyStr ''center'') \<and> \<not> is_list_like origin)"
    using fits by auto
  have pair: "\<not> (is_list_like origin \<and> length (elements origin) \<noteq> 2)"
    using fits by auto
  have one: "\<exists>a. priv_crop_image img origin shp = Inr a \<and> shape a = nat h # nat w # rest"
    if img: "shape img = H # W # rest" for img :: "'a ndarray"
  proof -
    consider (center) "origin = PyStr ''center''" "h \<le> int H" "w \<le> int W"
      | (corner) r c where "origin = PyStr ''top_left'' \<and> r = 0 \<and> c = 0 \<or> origin = PyTuple [r, c]"
          "0 \<le> r" "0 \<le> c" "r + h \<le> int H" "c + w \<le> int W"
          "shp = PyTuple [h, w] \<and> (r < int H \<or> c < int W) \<or> shp = PyArray [h, w]"
      | (as_list) r c where "origin = PyList [r, c]" "shp = PyArray [h, w]"
          "0 \<le> r" "0 \<le> c" "r + h \<le> int H" "c + w \<le> int W"
      using fits by blast
    then show ?thesis
    proof cases
      case center
      define r where "r = max (int H - h) 0 div 2"
      define c where "c = max (int W - w) 0 div 2"
      have rc: "0 \<le> r" "0 \<le> c" "r + h \<le> int H" "c + w \<le> int W"
        using center(2,3) by (auto simp: r_def c_def)
      have "priv_calc_origin img origin shp = Inr (PyArray [r, c])"
        unfolding center(1) r_def c_def using img extent(1,2) by (rule priv_calc_origin_center)
      then show ?thesis
        using img extent(2,3,4) rc by (rule priv_crop_image_at) (simp add: extent(1))
    next
      case (corner r c)
      have "priv_calc_origin img origin shp = Inr (PyTuple [r, c])"
        using corner(1) by (auto simp: priv_calc_origin_top_left priv_calc_origin_given)
      then show ?thesis
        using img extent(2,3,4) corner(2-5) by (rule priv_crop_image_at) (use corner(6) in auto)
    next
      case (as_list r c)
      have "priv_calc_origin img origin shp = Inr (PyList [r, c])"
        using as_list(1) by (simp add: priv_calc_origin_given)
      then show ?thesis
        using img extent(2,3,4) as_list(3-6) by (rule priv_crop_image_at) (simp add: as_list(2))
    qed
  qed
  have tasks: "\<forall>ix\<in>set (indices self).
      \<exists>a. priv_crop self ix components origin shp = Inr a \<and> shape a = nat h # nat w # rest"
  proof
    fix ix assume "ix \<in> set (indices self)"
    then obtain img where img: "get self ix components = Inr img" "shape img = H # W # rest"
      using get_record[OF images(1,2)] index(2) by blast
    then show "\<exists>a. priv_crop self ix components origin shp = Inr a
        \<and> shape a = nat h # nat w # rest"
      using one[OF img(2)] by (simp add: priv_crop_def and_then_def)
  qed
  from inbatch_parallel_images[OF index(1), of "\<lambda>self ix. priv_crop self ix components origin shp", OF tasks]
  obtain new_images where new:
    "inbatch_parallel (\<lambda>self ix. priv_crop self ix components origin shp) self None
       = Returns ReturnsSelf (setattr self ''images'' new_images)"
    "shape new_images = length (indices self) # nat h # nat w # rest"
    "\<forall>i<length (indices self). \<exists>element. getitem new_images i = Inr element \<and> shape element = nat h # nat w # rest"
    by blast
  have "crop self components origin shp = Returns ReturnsSelf (setattr self ''images'' new_images)"
    unfolding crop_def named sum.case if_not_P [OF known] if_not_P [OF pair]
    by (simp add: new(1) extent(1))
  then show ?thesis using new(2,3) index(2) by blast
qed

text \<open>A window of shape \<open>(1, 2)\<close>, given as a list, at the centre of one image of shape \<open>(2, 2)\<close>.\<close>

theorem crop_shape_witness:
  "\<exists>new_images.
      crop \<lparr>indices = [7], comps = [''images'' \<mapsto> NDArray [1, 2, 2] [1, 2, 3, 4::int]], console = []\<rparr>
        ''images'' (PyStr ''center'') (PyList [1, 2])
      = Returns ReturnsSelf
          (setattr \<lparr>indices = [7], comps = [''images'' \<mapsto> NDArray [1, 2, 2] [1, 2, 3, 4::int]], console = []\<rparr>
             ''images'' new_images)
    \<and> shape new_images = [1, 1, 2]
    \<and> (\<exists>element. getitem new_images 0 = Inr element \<and> shape element = [1, 2])"
proof -
  let ?self = "\<lparr>indices = [7], comps = [''images'' \<mapsto> NDArray [1, 2, 2] [1, 2, 3, 4::int]], console = []\<rparr>"
  have images: "comps ?self ''images'' = Some (NDArray [1, 2, 2] [1, 2, 3, 4])"
    "shape (NDArray [1, 2, 2] [1, 2, 3, 4::int]) = 1 # 2 # 2 # []" by simp_all
  have index: "indices ?self \<noteq> []" "length (indices ?self) = 1" by simp_all
  have extent: "is_list_like (PyList [1, 2])" "elements (PyList [1, 2]) = [1, 2]"
    "0 \<le> (1::int)" "0 \<le> (2::int)" by simp_all
  have fits: "PyStr ''center'' = PyStr ''center'' \<and> 1 \<le> int 2 \<and> 2 \<le> int 2
       \<or> (\<exists>r c. (PyStr ''center'' = PyStr ''top_left'' \<and> r = 0 \<and> c = 0 \<or> PyStr ''center'' = PyTuple [r, c])
              \<and> 0 \<le> r \<and> 0 \<le> c \<and> r + 1 \<le> int 2 \<and> c + 2 \<le> int 2
              \<and> (PyList [1, 2] = PyTuple [1, 2] \<and> (r < int 2 \<or> c < int 2) \<or> PyList [1, 2] = PyArray [1, 2]))
       \<or> (\<exists>r c. PyStr ''center'' = PyList [r, c] \<and> PyList [1, 2] = PyArray [1, 2]
              \<and> 0 \<le> r \<and> 0 \<le> c \<and> r + 1 \<le> int 2 \<and> c + 2 \<le> int 2)" by simp
  from crop_shape [OF images index extent fits]
  obtain new_images where new:
    "crop ?self ''images'' (PyStr ''center'') (PyList [1, 2]) = Returns ReturnsSelf (setattr ?self ''images'' new_images)"
    "shape new_images = 1 # nat 1 # nat 2 # []"
    "\<forall>i<1. \<exists>element. getitem new_images i = Inr element \<and> shape element = nat 1 # nat 2 # []"
    by blast
  from new(3) obtain element where "getitem new_images 0 = Inr element" "shape element = nat 1 # nat 2 # []"
    by auto
  with new(1,2) show ?thesis by (intro exI [of _ new_images] conjI exI [of _ element]) simp_all
qed

text \<open>
  Claim C4 as stated fails for an image smaller than the shape: slicing clips to the image,
  so a crop of shape \<open>(3, 3)\<close> of an image of shape \<open>(2, 2)\<close> has the shape \<open>(2, 2)\<close>.
\<close>

theorem crop_beyond_image_counterexample:
  "crop \<lparr>indices = [7], comps = [''images'' \<mapsto> NDArray [1, 2, 2] [1, 2, 3, 4::int]], console = []\<rparr>
        ''images'' (PyStr ''top_left'') (PyTuple [3, 3])
   = Returns ReturnsSelf
       \<lparr>indices = [7], comps = [''images'' \<mapsto> NDArray [1, 2, 2] [1, 2, 3, 4]], console = []\<rparr>"
proof -
  let ?self = "\<lparr>indices = [7], comps = [''images'' \<mapsto> NDArray [1, 2, 2] [1, 2, 3, 4::int]], console = []\<rparr>"
  have task: "priv_crop ?self 7 ''images'' (PyStr ''top_left'') (PyTuple [3, 3])
        = Inr (NDArray [2, 2] [1, 2, 3, 4])"
    by code_simp
  have stack: "np_stack [NDArray [2, 2] [1, 2, 3, 4::int]] = Inr (NDArray [1, 2, 2] [1, 2, 3, 4])"
    by code_simp
  have named: "py_in_strs (PyStr ''top_left'') [''top_left'', ''center''] = Inr True"
    by (simp add: and_then_def)
  show ?thesis
    unfolding crop_def named
    using task stack
    by (simp add: inbatch_parallel_def run_task_def assemble_def
        any_action_failed_def assemble_component_def setattr_def)
qed

text \<open>
  An array as origin never reaches the per-record work: the comparison with \<^verbatim>\<open>'top_left'\<close>
  has no truth value for an array of two entries, and an array of another length fails
  that comparison or the check of the length.
\<close>

lemma crop_refuses_array_origin:
  "\<exists>message. crop self components (PyArray xs) shp = Raises (ValueError message) self"
  by (cases xs) (auto simp: crop_def and_then_def)

subsection \<open>\<^verbatim>\<open>_preserve_shape\<close>\<close>

lemma floor_half_abs: "\<lfloor>\<bar>real i - real t\<bar> / 2\<rfloor> = \<bar>int t - int i\<bar> div 2"
proof -
  have "\<bar>real i - real t\<bar> = real_of_int \<bar>int t - int i\<bar>" by simp
  then have "\<lfloor>\<bar>real i - real t\<bar> / 2\<rfloor> = \<lfloor>real_of_int \<bar>int t - int i\<bar> / real_of_int 2\<rfloor>" by simp
  also have "\<dots> = \<bar>int t - int i\<bar> div 2" by (rule floor_divide_of_int_eq)
  finally show ?thesis .
qed

lemma policy_origin_int:
  "crop_mode = ''top_left'' \<or> crop_mode = ''center'' \<Longrightarrow>
   calc_origin (int i) (int t) crop_mode = Inr (int (policy_origin crop_mode i t))"
  by (auto simp: calc_origin_def policy_origin_def floor_half_abs)

lemma policy_origin_bound:
  "i < t \<Longrightarrow> policy_origin crop_mode i t + i \<le> t"
  "t \<le> i \<Longrightarrow> policy_origin crop_mode i t + t \<le> i"
  unfolding policy_origin_def floor_half_abs by (simp_all, linarith+)

lemma calc_coords_policy:
  assumes "crop_mode = ''top_left'' \<or> crop_mode = ''center''"
  shows "calc_coords (int i) (int t) crop_mode
         = Inr (if i < t then (0, int (policy_origin crop_mode i t), int i)
                else (int (policy_origin crop_mode i t), 0, int t))"
  using policy_origin_int[OF assms, of i t] by (simp add: calc_coords_def and_then_def)

lemma slice_indices_nat:
  "lo + len \<le> n \<Longrightarrow> slice_indices n (int lo) (int lo + int len) = (lo, lo + len)"
  using slice_indices_window[of "int lo" "int len" n] by simp

lemma np_zeros_nat:
  "np_zeros (map int s) = Inr (NDArray s (replicate (prod_list s) (0::'a::zero)))"
  by (simp add: np_zeros_def list_ex_iff comp_def)

lemma item_zeros:
  "in_bounds idx s \<Longrightarrow> item (NDArray s (replicate (prod_list s) (0::'a::zero))) idx = 0"
  by (simp add: item_def ravel_index_less)

lemma in_bounds_Cons: "in_bounds (i # idx) (n # s) \<longleftrightarrow> i < n \<and> in_bounds idx s"
  by (simp add: in_bounds_def)

lemma broadcastable_same: "broadcastable s s"
  by (simp add: broadcastable_def list_all2_same)

lemma broadcast_index_same: "in_bounds idx s \<Longrightarrow> broadcast_index s idx = idx"
proof -
  assume "in_bounds idx s"
  then have "list_all2 (\<lambda>i v. i < v) idx s" by (simp add: in_bounds_def)
  then have "map2 (\<lambda>v i. if v = 1 then 0 else i) s idx = idx"
    by (induction idx s rule: list_all2_induct) auto
  moreover have "length idx = length s"
    using \<open>list_all2 (\<lambda>i v. i < v) idx s\<close> by (rule list_all2_lengthD)
  ultimately show ?thesis by (simp add: broadcast_index_def)
qed

lemma paste_window:
  fixes img :: "('a::zero) ndarray"
  assumes img: "shape img = H # W # rest"
    and src: "oy + ly \<le> H" "ox + lx \<le> W"
    and dst: "ny + ly \<le> TH" "nx + lx \<le> TW"
  shows "\<exists>out.
      and_then (np_zeros ([int TH, int TW] @ map int rest)) (\<lambda>new_image.
      and_then (getitem_slices img (int oy, int oy + int ly) (int ox, int ox + int lx)) (\<lambda>part.
        setitem_slices new_image (int ny, int ny + int ly) (int nx, int nx + int lx) part)) = Inr out
    \<and> shape out = TH # TW # rest
    \<and> (\<forall>r c t. r < TH \<longrightarrow> c < TW \<longrightarrow> in_bounds t rest \<longrightarrow>
          item out (r # c # t)
          = (if ny \<le> r \<and> r < ny + ly \<and> nx \<le> c \<and> c < nx + lx
             then item img ((oy + (r - ny)) # (ox + (c - nx)) # t) else 0))"
proof -
  define canvas :: "'a ndarray" where
    "canvas = NDArray (TH # TW # rest) (replicate (prod_list (TH # TW # rest)) 0)"
  define part where
    "part = tabulate (ly # lx # rest) (\<lambda>idx. item img ((oy + idx ! 0) # (ox + idx ! 1) # drop 2 idx))"
  define out where
    "out = tabulate (TH # TW # rest)
       (\<lambda>idx. if ny \<le> idx ! 0 \<and> idx ! 0 < ny + ly \<and> nx \<le> idx ! 1 \<and> idx ! 1 < nx + lx
              then item part (broadcast_index (shape part)
                                ((idx ! 0 - ny) # (idx ! 1 - nx) # drop 2 idx))
              else item canvas idx)"
  have zeros: "np_zeros (int TH # int TW # map int rest) = Inr canvas"
    using np_zeros_nat[of "TH # TW # rest", where 'a = 'a] by (simp add: canvas_def)
  have get: "getitem_slices img (int oy, int oy + int ly) (int ox, int ox + int lx) = Inr part"
    using img src by (simp add: getitem_slices_def slice_indices_nat part_def)
  have set: "setitem_slices canvas (int ny, int ny + int ly) (int nx, int nx + int lx) part = Inr out"
  proof -
    have "shape part = ly # lx # rest" "shape canvas = TH # TW # rest"
      by (simp_all add: part_def canvas_def shape_tabulate)
    then show ?thesis using dst
      by (simp add: setitem_slices_def slice_indices_nat out_def broadcastable_same)
  qed
  have run: "and_then (np_zeros ([int TH, int TW] @ map int rest)) (\<lambda>new_image.
      and_then (getitem_slices img (int oy, int oy + int ly) (int ox, int ox + int lx)) (\<lambda>part.
        setitem_slices new_image (int ny, int ny + int ly) (int nx, int nx + int lx) part)) = Inr out"
    using zeros get set by (simp add: and_then_def)
  have items: "item out (r # c # t)
          = (if ny \<le> r \<and> r < ny + ly \<and> nx \<le> c \<and> c < nx + lx
             then item img ((oy + (r - ny)) # (ox + (c - nx)) # t) else 0)"
    if "r < TH" "c < TW" "in_bounds t rest" for r c t
  proof -
    have b: "in_bounds (r # c # t) (TH # TW # rest)" using that by (simp add: in_bounds_Cons)
    show ?thesis
    proof (cases "ny \<le> r \<and> r < ny + ly \<and> nx \<le> c \<and> c < nx + lx")
      case True
      then have "in_bounds ((r - ny) # (c - nx) # t) (ly # lx # rest)"
        using that(3) by (auto simp: in_bounds_Cons)
      then have "item part (broadcast_index (shape part) ((r - ny) # (c - nx) # t))
          = item img ((oy + (r - ny)) # (ox + (c - nx)) # t)"
        by (simp add: part_def item_tabulate shape_tabulate broadcast_index_same)
      then show ?thesis using True b by (simp add: out_def item_tabulate)
    next
      case False
      have "item canvas (r # c # t) = 0" unfolding canvas_def by (rule item_zeros[OF b])
      then show ?thesis using False b by (auto simp: out_def item_tabulate)
    qed
  qed
  have "shape out = TH # TW # rest" by (simp add: out_def shape_tabulate)
  then show ?thesis using run items by blast
qed

text \<open>
  Claim C5. For an image of \<open>H\<close> rows and \<open>W\<close> columns and a target of width \<open>TW\<close> and height
  \<open>TH\<close>, with \<^verbatim>\<open>crop\<close> one of \<^verbatim>\<open>'top_left'\<close> and \<^verbatim>\<open>'center'\<close>: \<^verbatim>\<open>calc_origin\<close> is the origin of
  the policy (0, or \<open>\<lfloor>|image - target| / 2\<rfloor>\<close>), and \<^verbatim>\<open>_preserve_shape\<close> returns an array of the
  target shape in which, independently for the rows and the columns, an axis on which the
  image is not shorter than the target is cropped from the origin on, and an axis on which
  it is shorter is pasted at the origin, every pixel outside the pasted window being zero.
\<close>

theorem preserve_shape_policy:
  fixes img :: "('a::zero) ndarray"
  assumes img: "shape img = H # W # rest"
    and mode: "crop_mode = ''top_left'' \<or> crop_mode = ''center''"
  shows "(\<forall>i t. calc_origin (int i) (int t) crop_mode = Inr (int (policy_origin crop_mode i t)))
    \<and> (\<exists>out. priv_preserve_shape img [int TW, int TH] crop_mode = Inr out
          \<and> shape out = TH # TW # rest
          \<and> (\<forall>r c t. r < TH \<longrightarrow> c < TW \<longrightarrow> in_bounds t rest \<longrightarrow>
                item out (r # c # t)
                = (case (policy_source crop_mode H TH r, policy_source crop_mode W TW c) of
                     (Some r', Some c') \<Rightarrow> item img (r' # c' # t)
                   | _ \<Rightarrow> 0)))"
proof (intro conjI allI)
  fix i t
  show "calc_origin (int i) (int t) crop_mode = Inr (int (policy_origin crop_mode i t))"
    by (rule policy_origin_int[OF mode])
next
  define oy where "oy = (if H < TH then 0 else policy_origin crop_mode H TH)"
  define ny where "ny = (if H < TH then policy_origin crop_mode H TH else 0)"
  define ly where "ly = (if H < TH then H else TH)"
  define ox where "ox = (if W < TW then 0 else policy_origin crop_mode W TW)"
  define nx where "nx = (if W < TW then policy_origin crop_mode W TW else 0)"
  define lx where "lx = (if W < TW then W else TW)"
  have src: "oy + ly \<le> H" "ox + lx \<le> W"
    using policy_origin_bound(2)[of TH H crop_mode] policy_origin_bound(2)[of TW W crop_mode]
    by (auto simp: oy_def ly_def ox_def lx_def)
  have dst: "ny + ly \<le> TH" "nx + lx \<le> TW"
    using policy_origin_bound(1)[of H TH crop_mode] policy_origin_bound(1)[of W TW crop_mode]
    by (auto simp: ny_def ly_def nx_def lx_def)
  have numba: "preserve_shape_numba (get_image_size img) [int TW, int TH] crop_mode
      = Inr ((int nx, int nx + int lx), (int ny, int ny + int ly),
             (int ox, int ox + int lx), (int oy, int oy + int ly))"
    using img
    by (simp add: preserve_shape_numba_def get_image_size_def shape2_def tuple_index_def
        and_then_def calc_coords_policy[OF mode] oy_def ny_def ly_def ox_def nx_def lx_def)
  from paste_window[OF img src dst]
  obtain out where out:
    "and_then (np_zeros ([int TH, int TW] @ map int rest)) (\<lambda>new_image.
      and_then (getitem_slices img (int oy, int oy + int ly) (int ox, int ox + int lx)) (\<lambda>part.
        setitem_slices new_image (int ny, int ny + int ly) (int nx, int nx + int lx) part)) = Inr out"
    "shape out = TH # TW # rest"
    "\<And>r c t. r < TH \<Longrightarrow> c < TW \<Longrightarrow> in_bounds t rest \<Longrightarrow>
          item out (r # c # t)
          = (if ny \<le> r \<and> r < ny + ly \<and> nx \<le> c \<and> c < nx + lx
             then item img ((oy + (r - ny)) # (ox + (c - nx)) # t) else 0)"
    by blast
  have run: "priv_preserve_shape img [int TW, int TH] crop_mode = Inr out"
    using out(1) img by (simp add: priv_preserve_shape_def numba and_then_def)
  have rows: "policy_source crop_mode H TH r
      = (if ny \<le> r \<and> r < ny + ly then Some (oy + (r - ny)) else None)" if "r < TH" for r
    using that by (auto simp: policy_source_def Let_def oy_def ny_def ly_def)
  have cols: "policy_source crop_mode W TW c
      = (if nx \<le> c \<and> c < nx + lx then Some (ox + (c - nx)) else None)" if "c < TW" for c
    using that by (auto simp: policy_source_def Let_def ox_def nx_def lx_def)
  have "item out (r # c # t)
      = (case (policy_source crop_mode H TH r, policy_source crop_mode W TW c) of
           (Some r', Some c') \<Rightarrow> item img (r' # c' # t)
         | _ \<Rightarrow> 0)" if "r < TH" "c < TW" "in_bounds t rest" for r c t
    using out(3)[OF that] by (simp add: rows[OF that(1)] cols[OF that(2)])
  then show "\<exists>out. priv_preserve_shape img [int TW, int TH] crop_mode = Inr out
          \<and> shape out = TH # TW # rest
          \<and> (\<forall>r c t. r < TH \<longrightarrow> c < TW \<longrightarrow> in_bounds t rest \<longrightarrow>
                item out (r # c # t)
                = (case (policy_source crop_mode H TH r, policy_source crop_mode W TW c) of
                     (Some r', Some c') \<Rightarrow> item img (r' # c' # t)
                   | _ \<Rightarrow> 0))"
    using run out(2) by blast
qed

text \<open>
  An image of shape \<open>(2, 3)\<close> brought to width 1 and height 4 around the centre: its middle
  column, between one empty row above and one below.
\<close>

theorem preserve_shape_policy_witness:
  "calc_origin (int 2) (int 5) ''center'' = Inr 1
   \<and> (\<exists>out. priv_preserve_shape (NDArray [2, 3] [1, 2, 3, 4, 5, 6::int]) [int 1, int 4] ''center'' = Inr out
        \<and> shape out = [4, 1]
        \<and> item out [0, 0] = 0 \<and> item out [1, 0] = 2 \<and> item out [2, 0] = 5 \<and> item out [3, 0] = 0)"
proof -
  let ?img = "NDArray [2, 3] [1, 2, 3, 4, 5, 6::int]"
  have img: "shape ?img = 2 # 3 # []" by simp
  have mode: "''center'' = ''top_left'' \<or> ''center'' = ''center''" by simp
  from preserve_shape_policy [OF img mode, of 1 4]
  obtain out where origin: "calc_origin (int 2) (int 5) ''center'' = Inr (int (policy_origin ''center'' 2 5))"
    and out: "priv_preserve_shape ?img [int 1, int 4] ''center'' = Inr out" "shape out = [4, 1]"
    and items: "\<And>r c t. r < 4 \<Longrightarrow> c < 1 \<Longrightarrow> in_bounds t [] \<Longrightarrow>
        item out (r # c # t)
        = (case (policy_source ''center'' 2 4 r, policy_source ''center'' 3 1 c) of
             (Some r', Some c') \<Rightarrow> item ?img (r' # c' # t)
           | _ \<Rightarrow> 0)"
    by blast
  have o: "policy_origin ''center'' 2 5 = 1" "policy_origin ''center'' 2 4 = 1"
     "policy_origin ''center'' 3 (Suc 0) = Suc 0"
    by (simp_all add: policy_origin_def)
  have "item out [0, 0] = 0" "item out [1, 0] = 2" "item out [2, 0] = 5" "item out [3, 0] = 0"
    using items[of 0 0 "[]"] items[of 1 0 "[]"] items[of 2 0 "[]"] items[of 3 0 "[]"]
    by (simp_all add: in_bounds_def policy_source_def o item_def)
  then show ?thesis using origin out by (auto simp: o)
qed

subsection \<open>\<^verbatim>\<open>random_scale\<close> and \<^verbatim>\<open>rotate\<close>\<close>

text \<open>
  Claim C6 fails on the code for an image that is not square. \<^verbatim>\<open>random_scale\<close> computes
  the target from \<^verbatim>\<open>get_image_size\<close>, which is \<open>(width, height)\<close>, and \<^verbatim>\<open>_resize_one\<close> divides
  it by \<^verbatim>\<open>image.shape[:2]\<close>, which is \<open>(height, width)\<close>. With \<open>p = 1\<close> and the factor range
  \<open>(1, 1)\<close>, an image of 2 rows and 4 columns is handed to the zoom kernel with the factors
  \<open>2\<close> for the rows and \<open>1/2\<close> for the columns, whatever the kernel is: it is not resized by a
  factor of the range.
\<close>

theorem random_scale_swaps_axes:
  "random_scale zoom (1 / 2) 0
     \<lparr>indices = [7], comps = [''images'' \<mapsto> NDArray [1, 2, 4] [1, 2, 3, 4, 5, 6, 7, 8::int]], console = []\<rparr>
     7 ''images'' 1 (Some (1, 1)) False ''center''
   = zoom (NDArray [2, 4] [1, 2, 3, 4, 5, 6, 7, 8]) [2, 1 / 2]"
proof -
  let ?self = "\<lparr>indices = [7], comps = [''images'' \<mapsto> NDArray [1, 2, 4] [1, 2, 3, 4, 5, 6, 7, 8::int]], console = []\<rparr>"
  have img: "get ?self 7 ''images'' = Inr (NDArray [2, 4] [1, 2, 3, 4, 5, 6, 7, 8])"
    by code_simp
  have r: "np_round 4 = 4" "np_round 2 = 2" by (simp_all add: np_round_def)
  have i: "astype_int16 4 = 4" "astype_int16 2 = 2" by (simp_all add: astype_int16_def)
  show ?thesis
    using img
    by (simp add: random_scale_def and_then_def np_random_binomial_def np_random_uniform_def
        get_image_size_def shape2_def r i priv_resize_one_def broadcast_def split: sum.splits)
qed

text \<open>
  Claim C7 fails on the code for \<^verbatim>\<open>rotate\<close>: the method lacks the decorator
  \<^verbatim>\<open>inbatch_parallel\<close> that its siblings carry, so a call returns the rotated image of the one
  record (or raises what the kernel raised), never the batch.
\<close>

theorem rotate_returns_record_value:
  "rotate scipy_rotate
     \<lparr>indices = [7], comps = [''images'' \<mapsto> NDArray [1, 2, 2] [1, 2, 3, 4::int]], console = []\<rparr>
     7 ''images'' 0 True
   = (case scipy_rotate (NDArray [2, 2] [1, 2, 3, 4]) 0 False of
        Inl e \<Rightarrow> Raises e \<lparr>indices = [7], comps = [''images'' \<mapsto> NDArray [1, 2, 2] [1, 2, 3, 4::int]], console = []\<rparr>
      | Inr new_image \<Rightarrow>
          Returns (ReturnsArray new_image)
            \<lparr>indices = [7], comps = [''images'' \<mapsto> NDArray [1, 2, 2] [1, 2, 3, 4::int]], console = []\<rparr>)"
proof -
  let ?self = "\<lparr>indices = [7], comps = [''images'' \<mapsto> NDArray [1, 2, 2] [1, 2, 3, 4::int]], console = []\<rparr>"
  have img: "get ?self 7 ''images'' = Inr (NDArray [2, 2] [1, 2, 3, 4])"
    by code_simp
  show ?thesis
    using img by (simp add: rotate_def priv_rotate_one_def and_then_def split: sum.splits)
qed

text \<open>The sibling \<^verbatim>\<open>random_rotate\<close>, when it returns, returns the batch.\<close>

lemma assemble_loop_returns_self: "assemble_loop self todo = Returns r self' \<Longrightarrow> r = ReturnsSelf"
  by (induction self todo rule: assemble_loop.induct) (auto split: outcome.splits)

lemma random_rotate_returns_batch:
  "random_rotate scipy_rotate draws self components p angle preserve_shape = Returns r self'
   \<Longrightarrow> r = ReturnsSelf"
  by (auto simp: random_rotate_def inbatch_parallel_def assemble_def Let_def
      dest: assemble_loop_returns_self
      split: if_splits option.splits list.splits sum.splits components_arg.splits outcome.splits)

subsection \<open>Component views\<close>

text \<open>
  Claim C8. With the index \<open>0..99\<close> and \<^verbatim>\<open>labels\<close> \<open>= 100..199\<close>: the view narrowed to \<open>12..67\<close> is
  not cropped, the view narrowed from it to \<open>25..47\<close> is cropped and reads 138 at the
  identifier 38. After \<^verbatim>\<open>labels\<close> at 38 is set to 1000 through the chain of the crop (the view
  \<open>32..41\<close> narrowed from it, as in \<^verbatim>\<open>test_getitem_setattr2\<close>), the crop and that view read
  1000 there, the view \<open>12..67\<close> and the root still read 138, and the components of the root
  are what they were.
\<close>

theorem cropped_chain_scenario:
  "(case tuple_of_arrays of
      Inl e \<Rightarrow> False
    | Inr (h, a0, a1, a2, a3, others) \<Rightarrow>
        is_crop a1 = False \<and> is_crop a2 = True
      \<and> view_index a1 = map int [12..<68] \<and> view_index a2 = map int [25..<48]
      \<and> read_at h a2 ''labels'' 38 = Inr 138
      \<and> (case and_then (getitem_view a3 38) (\<lambda>v. setattr_view h v ''labels'' (Scalar 1000)) of
            Inl e \<Rightarrow> False
          | Inr h' \<Rightarrow>
              read_at h' a3 ''labels'' 38 = Inr 1000
            \<and> read_at h' a2 ''labels'' 38 = Inr 1000
            \<and> read_at h' a1 ''labels'' 38 = Inr 138
            \<and> read_at h' a0 ''labels'' 38 = Inr 138
            \<and> read_component h' a0 ''labels'' = Inr (map (\<lambda>i. int i + 100) [0..<100])
            \<and> read_component h' a0 ''images'' = Inr (map (\<lambda>i. int i + 1000) [0..<100])))"
  by code_simp

lemma gather_same_array: "h' ! a = h ! a \<Longrightarrow> gather h' st a sub = gather h st a sub"
  by (induction sub) (simp_all add: lookup_def split: option.splits)

lemma gather_resolved:
  "list_all (\<lambda>ident. case get_pos (identifiers st) ident of
                        Some pos \<Rightarrow> pos < length (h ! a) | None \<Rightarrow> False) sub
   \<Longrightarrow> \<exists>selected. gather h st a sub = Inr selected \<and> length selected = length sub"
  by (induction sub) (auto simp: lookup_def and_then_def split: option.splits)

lemma read_component_unfold:
  "read_component h w name =
     (case map_of (columns (backing w)) name of
        None \<Rightarrow> Inl AttributeError
      | Some b \<Rightarrow> (case selection w of None \<Rightarrow> Inr (h ! b) | Some sub \<Rightarrow> gather h (backing w) b sub))"
  by (auto simp: read_component_def getattr_def and_then_def split: option.splits sum.splits)

lemma read_component_same_arrays:
  assumes "list_all (\<lambda>(n, b). b < length h) (columns (backing w))"
    and "\<forall>b<length h. h' ! b = h ! b"
  shows "read_component h' w name = read_component h w name"
proof (cases "map_of (columns (backing w)) name")
  case None
  then show ?thesis by (simp add: read_component_unfold)
next
  case (Some b)
  then have "(name, b) \<in> set (columns (backing w))" by (rule map_of_SomeD)
  then have "b < length h" using assms(1) by (auto simp: list_all_iff)
  then have "h' ! b = h ! b" using assms(2) by simp
  then show ?thesis using Some gather_same_array [of h' b h "backing w"]
    by (simp add: read_component_unfold split: option.splits)
qed

lemma narrowed_read_then_assign:
  assumes "map_of (columns (backing v)) name = Some a" and "selection v = Some sub"
    and "gather h (backing v) a sub = Inr selected" and "i < length selected"
  shows "and_then (getattr h v name) (\<lambda>(h1, b). setitem h1 b i x) = Inr (h @ [selected[i := x]])"
  using assms by (simp add: getattr_def and_then_def setitem_def)

lemma spanning_read_then_assign:
  assumes "map_of (columns (backing v)) name = Some a" and "selection v = None"
    and "i < length (h ! a)"
  shows "and_then (getattr h v name) (\<lambda>(h1, b). setitem h1 b i x) = Inr (h[a := (h ! a)[i := x]])"
  using assms by (simp add: getattr_def and_then_def setitem_def)

lemma read_at_position:
  assumes "map_of (columns (backing w)) name = Some a"
    and "ident \<in> set (view_index w)" and "get_pos (identifiers (backing w)) ident = Some i"
    and "i < length (h ! a)"
  shows "read_at h w name ident = Inr ((h ! a) ! i)"
  using assms
  by (simp add: read_at_def getitem_view_def and_then_def read_component_unfold lookup_def)

text \<open>
  Claim C9, as amended. A view that spans its whole storage (the root view, or a cropped
  view) hands out the array of the storage itself: an assignment to one position of it
  succeeds and is read through that view and, at the identifier of that position, through
  every view on the same storage. A view narrowed to an index subset without a crop hands
  out a new array of the selected values: an assignment to one position of it succeeds and
  changes what no view reads, the same view included.
\<close>

theorem element_assignment_through_read:
  assumes column: "map_of (columns (backing v)) name = Some a" and valid: "a < length h"
  shows "(selection v = None \<longrightarrow> i < length (h ! a) \<longrightarrow>
            (\<exists>h'. and_then (getattr h v name) (\<lambda>(h1, b). setitem h1 b i x) = Inr h'
               \<and> read_component h' v name = Inr ((h ! a)[i := x])
               \<and> (\<forall>w ident. backing w = backing v \<longrightarrow> ident \<in> set (view_index w) \<longrightarrow>
                     get_pos (identifiers (backing v)) ident = Some i \<longrightarrow>
                     read_at h' w name ident = Inr x)))
       \<and> (\<forall>sub. selection v = Some sub \<longrightarrow> i < length sub \<longrightarrow>
             list_all (\<lambda>ident. case get_pos (identifiers (backing v)) ident of
                                  Some pos \<Rightarrow> pos < length (h ! a) | None \<Rightarrow> False) sub \<longrightarrow>
            (\<exists>h'. and_then (getattr h v name) (\<lambda>(h1, b). setitem h1 b i x) = Inr h'
               \<and> (\<forall>w name'. list_all (\<lambda>(n, b). b < length h) (columns (backing w)) \<longrightarrow>
                     read_component h' w name' = read_component h w name')))"
proof (intro conjI impI allI)
  assume spans: "selection v = None" and i: "i < length (h ! a)"
  define h' where "h' = h[a := (h ! a)[i := x]]"
  have run: "and_then (getattr h v name) (\<lambda>(h1, b). setitem h1 b i x) = Inr h'"
    unfolding h'_def by (rule spanning_read_then_assign[OF column spans i])
  have arr: "h' ! a = (h ! a)[i := x]" using valid by (simp add: h'_def)
  have own: "read_component h' v name = Inr ((h ! a)[i := x])"
    using column spans arr by (simp add: read_component_unfold)
  have others: "read_at h' w name ident = Inr x"
    if "backing w = backing v" "ident \<in> set (view_index w)"
      "get_pos (identifiers (backing v)) ident = Some i" for w ident
  proof -
    have "read_at h' w name ident = Inr ((h' ! a) ! i)"
      using that column i arr by (intro read_at_position) simp_all
    then show ?thesis using arr i by simp
  qed
  show "\<exists>h'. and_then (getattr h v name) (\<lambda>(h1, b). setitem h1 b i x) = Inr h'
       \<and> read_component h' v name = Inr ((h ! a)[i := x])
       \<and> (\<forall>w ident. backing w = backing v \<longrightarrow> ident \<in> set (view_index w) \<longrightarrow>
             get_pos (identifiers (backing v)) ident = Some i \<longrightarrow>
             read_at h' w name ident = Inr x)"
    using run own others by blast
next
  fix sub
  assume narrowed: "selection v = Some sub" and i: "i < length sub"
    and resolved: "list_all (\<lambda>ident. case get_pos (identifiers (backing v)) ident of
                                  Some pos \<Rightarrow> pos < length (h ! a) | None \<Rightarrow> False) sub"
  obtain selected where sel: "gather h (backing v) a sub = Inr selected" "length selected = length sub"
    using gather_resolved[OF resolved] by blast
  define h' where "h' = h @ [selected[i := x]]"
  have run: "and_then (getattr h v name) (\<lambda>(h1, b). setitem h1 b i x) = Inr h'"
    unfolding h'_def using i sel(2) by (intro narrowed_read_then_assign[OF column narrowed sel(1)]) simp
  have old: "\<forall>b<length h. h' ! b = h ! b" by (simp add: h'_def nth_append)
  have "read_component h' w name' = read_component h w name'"
    if "list_all (\<lambda>(n, b). b < length h) (columns (backing w))" for w name'
    using that old by (rule read_component_same_arrays)
  then show "\<exists>h'. and_then (getattr h v name) (\<lambda>(h1, b). setitem h1 b i x) = Inr h'
       \<and> (\<forall>w name'. list_all (\<lambda>(n, b). b < length h) (columns (backing w)) \<longrightarrow>
             read_component h' w name' = read_component h w name')"
    using run by blast
qed

text \<open>
  Three labels, read through the root view and through the view narrowed to the
  identifiers 1 and 2.
\<close>

theorem element_assignment_through_read_witness:
  "(\<exists>h'. and_then (getattr [[10, 20, 30]]
                 \<lparr>selection = None, backing = \<lparr>identifiers = [0, 1, 2], columns = [(''labels'', 0)]\<rparr>, is_crop = False\<rparr>
                 ''labels'') (\<lambda>(h1, b). setitem h1 b 1 99) = Inr h'
         \<and> read_component h'
               \<lparr>selection = None, backing = \<lparr>identifiers = [0, 1, 2], columns = [(''labels'', 0)]\<rparr>, is_crop = False\<rparr>
               ''labels'' = Inr [10, 99, 30]
         \<and> read_at h'
               \<lparr>selection = Some [1, 2], backing = \<lparr>identifiers = [0, 1, 2], columns = [(''labels'', 0)]\<rparr>, is_crop = False\<rparr>
               ''labels'' 1 = Inr 99)
   \<and> (\<exists>h'. and_then (getattr [[10, 20, 30]]
                 \<lparr>selection = Some [1, 2], backing = \<lparr>identifiers = [0, 1, 2], columns = [(''labels'', 0)]\<rparr>, is_crop = False\<rparr>
                 ''labels'') (\<lambda>(h1, b). setitem h1 b 0 99) = Inr h'
         \<and> read_component h'
               \<lparr>selection = Some [1, 2], backing = \<lparr>identifiers = [0, 1, 2], columns = [(''labels'', 0)]\<rparr>, is_crop = False\<rparr>
               ''labels'' = Inr [20, 30]
         \<and> read_component h'
               \<lparr>selection = None, backing = \<lparr>identifiers = [0, 1, 2], columns = [(''labels'', 0)]\<rparr>, is_crop = False\<rparr>
               ''labels'' = Inr [10, 20, 30])"
proof -
  let ?h = "[[10, 20, 30]] :: heap"
  let ?st = "\<lparr>identifiers = [0, 1, 2], columns = [(''labels'', 0)]\<rparr>"
  let ?root = "\<lparr>selection = None, backing = ?st, is_crop = False\<rparr>"
  let ?narrow = "\<lparr>selection = Some [1, 2], backing = ?st, is_crop = False\<rparr>"
  have column: "map_of (columns (backing ?root)) ''labels'' = Some 0"
    "map_of (columns (backing ?narrow)) ''labels'' = Some 0" by simp_all
  have valid: "0 < length ?h" by simp
  have before: "read_component ?h ?narrow ''labels'' = Inr [20, 30]"
    "read_component ?h ?root ''labels'' = Inr [10, 20, 30]" by code_simp+
  have in_heap: "list_all (\<lambda>(n, b). b < length ?h) (columns (backing ?narrow))"
    "list_all (\<lambda>(n, b). b < length ?h) (columns (backing ?root))" by simp_all
  have pos: "get_pos (identifiers (backing ?root)) 1 = Some 1" by simp
  have resolved: "list_all (\<lambda>ident. case get_pos (identifiers (backing ?narrow)) ident of
      Some pos \<Rightarrow> pos < length (?h ! 0) | None \<Rightarrow> False) [1, 2]" by simp
  from element_assignment_through_read [OF column(1) valid, of 1 99]
  obtain h1 where first:
    "and_then (getattr ?h ?root ''labels'') (\<lambda>(h1, b). setitem h1 b 1 99) = Inr h1"
    "read_component h1 ?root ''labels'' = Inr ((?h ! 0)[1 := 99])"
    "\<And>w ident. backing w = backing ?root \<Longrightarrow> ident \<in> set (view_index w) \<Longrightarrow>
       get_pos (identifiers (backing ?root)) ident = Some 1 \<Longrightarrow> read_at h1 w ''labels'' ident = Inr 99"
    by force
  have seen: "read_at h1 ?narrow ''labels'' 1 = Inr 99"
    using pos by (intro first(3)) (simp_all add: view_index_def)
  from element_assignment_through_read [OF column(2) valid, of 0 99]
  obtain h2 where second:
    "and_then (getattr ?h ?narrow ''labels'') (\<lambda>(h1, b). setitem h1 b 0 99) = Inr h2"
    "\<And>w name'. list_all (\<lambda>(n, b). b < length ?h) (columns (backing w)) \<Longrightarrow>
       read_component h2 w name' = read_component ?h w name'"
    using resolved by force
  have unseen: "read_component h2 ?narrow ''labels'' = Inr [20, 30]"
    "read_component h2 ?root ''labels'' = Inr [10, 20, 30]"
    using second(2) [OF in_heap(1)] second(2) [OF in_heap(2)] before by simp_all
  show ?thesis using first(1,2) seen second(1) unseen by auto
qed

text \<open>
  Claim C9 as stated fails for a narrowed view (\<^verbatim>\<open>test_getattr_setitem1\<close>): after
  \<^verbatim>\<open>a32_42.labels[6] = 1000\<close> the same view, which is not cropped, still reads 138 at the
  identifier 38.
\<close>

theorem narrowed_read_is_a_copy_counterexample:
  "(case tuple_of_arrays of
      Inl e \<Rightarrow> False
    | Inr (h, a0, a1, a2, a3, others) \<Rightarrow>
        is_crop a3 = False
      \<and> read_at h a3 ''labels'' 38 = Inr 138
      \<and> (case and_then (getattr h a3 ''labels'') (\<lambda>(h1, a). setitem h1 a 6 1000) of
            Inl e \<Rightarrow> False
          | Inr h' \<Rightarrow>
              read_at h' a3 ''labels'' 38 = Inr 138
            \<and> read_component h' a3 ''labels'' = read_component h a3 ''labels''
            \<and> read_at h' a2 ''labels'' 38 = Inr 138))"
  by code_simp

subsection \<open>What the validation of \<^verbatim>\<open>crop\<close> and the extremes of \<^verbatim>\<open>random_scale\<close> do guarantee\<close>

text \<open>
  \<^verbatim>\<open>crop\<close> raises \<^verbatim>\<open>ValueError\<close> at once, with the batch untouched, when the origin is neither
  of the two names nor a list-like of length 2, or when the shape is not a list-like;
  for the two names and for a tuple or a list of length 2 as origin the per-record work is
  dispatched.
\<close>

lemma crop_validation:
  assumes "origin \<notin> {PyStr ''top_left'', PyStr ''center''} \<and> \<not> is_list_like origin
       \<or> is_list_like origin \<and> length (elements origin) \<noteq> 2
       \<or> \<not> is_list_like shp"
  shows "\<exists>message. crop self components origin shp = Raises (ValueError message) self"
  using assms by (cases origin) (auto simp: crop_def and_then_def)

lemma crop_dispatches:
  assumes "origin \<in> {PyStr ''top_left'', PyStr ''center''}
       \<or> (\<exists>r c. origin = PyTuple [r, c] \<or> origin = PyList [r, c])"
    and "is_list_like shp"
  shows "crop self components origin shp
         = (case inbatch_parallel (\<lambda>self ix. priv_crop self ix components origin shp) self None of
              Raises e self' \<Rightarrow> Raises e self'
            | Returns r self' \<Rightarrow> Returns ReturnsSelf self')"
  using assms by (auto simp: crop_def and_then_def)

text \<open>
  With \<open>p = 0\<close> \<^verbatim>\<open>random_scale\<close> hands back the image of the record as it is. With \<open>p = 1\<close> it
  hands back what \<^verbatim>\<open>_resize_one\<close> returns for the target scaled by the drawn factor, and
  with \<^verbatim>\<open>preserve_shape\<close> an array with the height and the width of the original.
\<close>

lemma priv_preserve_shape_shape:
  fixes img :: "('a::zero) ndarray"
  assumes img: "shape img = H # W # rest"
    and mode: "crop_mode = ''top_left'' \<or> crop_mode = ''center''"
  shows "\<exists>out. priv_preserve_shape img [int TW, int TH] crop_mode = Inr out \<and> shape out = TH # TW # rest"
proof -
  define oy where "oy = (if H < TH then 0 else policy_origin crop_mode H TH)"
  define ny where "ny = (if H < TH then policy_origin crop_mode H TH else 0)"
  define ly where "ly = (if H < TH then H else TH)"
  define ox where "ox = (if W < TW then 0 else policy_origin crop_mode W TW)"
  define nx where "nx = (if W < TW then policy_origin crop_mode W TW else 0)"
  define lx where "lx = (if W < TW then W else TW)"
  have src: "oy + ly \<le> H" "ox + lx \<le> W"
    using policy_origin_bound(2)[of TH H crop_mode] policy_origin_bound(2)[of TW W crop_mode]
    by (auto simp: oy_def ly_def ox_def lx_def)
  have dst: "ny + ly \<le> TH" "nx + lx \<le> TW"
    using policy_origin_bound(1)[of H TH crop_mode] policy_origin_bound(1)[of W TW crop_mode]
    by (auto simp: ny_def ly_def nx_def lx_def)
  have numba: "preserve_shape_numba (get_image_size img) [int TW, int TH] crop_mode
      = Inr ((int nx, int nx + int lx), (int ny, int ny + int ly),
             (int ox, int ox + int lx), (int oy, int oy + int ly))"
    using img
    by (simp add: preserve_shape_numba_def get_image_size_def shape2_def tuple_index_def
        and_then_def calc_coords_policy[OF mode] oy_def ny_def ly_def ox_def nx_def lx_def)
  from paste_window[OF img src dst]
  obtain out where out:
    "and_then (np_zeros ([int TH, int TW] @ map int rest)) (\<lambda>new_image.
      and_then (getitem_slices img (int oy, int oy + int ly) (int ox, int ox + int lx)) (\<lambda>part.
        setitem_slices new_image (int ny, int ny + int ly) (int nx, int nx + int lx) part)) = Inr out"
    "shape out = TH # TW # rest"
    by blast
  have "priv_preserve_shape img [int TW, int TH] crop_mode = Inr out"
    using out(1) img by (simp add: priv_preserve_shape_def numba and_then_def)
  then show ?thesis using out(2) by blast
qed

lemma np_random_binomial_zero: "0 \<le> u \<Longrightarrow> np_random_binomial u 0 = Inr 0"
  by (simp add: np_random_binomial_def)

lemma np_random_binomial_one: "u < 1 \<Longrightarrow> np_random_binomial u 1 = Inr 1"
  by (simp add: np_random_binomial_def)

theorem random_scale_extremes:
  fixes img :: "('a::zero) ndarray"
  assumes stored: "get self ix components = Inr img"
    and draw: "0 \<le> u" "u < 1"
  shows "random_scale zoom u v self ix components 0 factor preserve_shape crop_mode = Inr img
    \<and> (\<forall>H W rest new H' W' rest'.
          shape img = H # W # rest \<longrightarrow>
          crop_mode = ''top_left'' \<or> crop_mode = ''center'' \<longrightarrow>
          priv_resize_one zoom self ix components
            (map (\<lambda>s. astype_int16 (np_round (real_of_int s
                   * np_random_uniform v (case factor of None \<Rightarrow> (0.9, 1.1) | Some f \<Rightarrow> f))))
               (get_image_size img)) = Inr new \<longrightarrow>
          shape new = H' # W' # rest' \<longrightarrow>
          random_scale zoom u v self ix components 1 factor False crop_mode = Inr new
          \<and> (\<exists>out. random_scale zoom u v self ix components 1 factor True crop_mode = Inr out
                 \<and> shape out = H # W # rest'))"
proof (intro conjI allI impI)
  show "random_scale zoom u v self ix components 0 factor preserve_shape crop_mode = Inr img"
    using stored draw(1)
    by (simp add: random_scale_def and_then_def np_random_binomial_zero Let_def)
next
  fix H W rest new H' W' rest'
  assume img: "shape img = H # W # rest"
    and mode: "crop_mode = ''top_left'' \<or> crop_mode = ''center''"
    and resized: "priv_resize_one zoom self ix components
            (map (\<lambda>s. astype_int16 (np_round (real_of_int s
                   * np_random_uniform v (case factor of None \<Rightarrow> (0.9, 1.1) | Some f \<Rightarrow> f))))
               (get_image_size img)) = Inr new"
    and new: "shape new = H' # W' # rest'"
  have size: "get_image_size img = [int W, int H]"
    using img by (simp add: get_image_size_def shape2_def)
  show "random_scale zoom u v self ix components 1 factor False crop_mode = Inr new"
    using stored draw(2) resized
    by (simp add: random_scale_def and_then_def np_random_binomial_one Let_def)
  obtain out where out: "priv_preserve_shape new [int W, int H] crop_mode = Inr out"
    "shape out = H # W # rest'"
    using priv_preserve_shape_shape[OF new mode] by blast
  have "random_scale zoom u v self ix components 1 factor True crop_mode = Inr out"
    using stored draw(2) resized out(1) size
    by (simp add: random_scale_def and_then_def np_random_binomial_one Let_def)
  then show "\<exists>out. random_scale zoom u v self ix components 1 factor True crop_mode = Inr out
      \<and> shape out = H # W # rest'"
    using out(2) by blast
qed

end
